theory Spec2Isabelle
  imports Complex_Main "HOL-Library.Word" "HOL-Library.AList" "HOL-Library.Sublist"
begin

section \<open>JavaScript numbers and three.js vectors\<close>

text \<open>
  The geometry code computes on JavaScript numbers and stores them in typed arrays.
  A number is modelled as a real (rounding of finite results is abstracted away) or one
  of the three IEEE specials the code can produce. \<open>undefined\<close>, the value of an
  out-of-range array read, takes part in the arithmetic below only after conversion to a
  number, which gives \<open>NaN\<close>; the model writes \<open>NaN\<close> for it.
\<close>

datatype jsnum = Num real | PosInf | NegInf | NaN

datatype js_error = TypeError | RangeError

fun js_add :: "jsnum \<Rightarrow> jsnum \<Rightarrow> jsnum" where
  "js_add (Num a) (Num b) = Num (a + b)"
| "js_add NaN _ = NaN"
| "js_add _ NaN = NaN"
| "js_add PosInf NegInf = NaN"
| "js_add NegInf PosInf = NaN"
| "js_add PosInf _ = PosInf"
| "js_add _ PosInf = PosInf"
| "js_add NegInf _ = NegInf"
| "js_add _ NegInf = NegInf"

definition inf_signed :: "bool \<Rightarrow> jsnum" where
  "inf_signed positive = (if positive then PosInf else NegInf)"

fun js_mul :: "jsnum \<Rightarrow> jsnum \<Rightarrow> jsnum" where
  "js_mul (Num a) (Num b) = Num (a * b)"
| "js_mul NaN _ = NaN"
| "js_mul _ NaN = NaN"
| "js_mul (Num a) PosInf = (if a = 0 then NaN else inf_signed (0 < a))"
| "js_mul (Num a) NegInf = (if a = 0 then NaN else inf_signed (a < 0))"
| "js_mul PosInf (Num b) = (if b = 0 then NaN else inf_signed (0 < b))"
| "js_mul NegInf (Num b) = (if b = 0 then NaN else inf_signed (b < 0))"
| "js_mul PosInf PosInf = PosInf"
| "js_mul NegInf NegInf = PosInf"
| "js_mul PosInf NegInf = NegInf"
| "js_mul NegInf PosInf = NegInf"

text \<open>\<open>1 / n\<close> for an array length \<open>n\<close> (a non-negative integer, so \<open>+0\<close> when zero).\<close>

definition js_recip_length :: "nat \<Rightarrow> jsnum" where
  "js_recip_length n = (if n = 0 then PosInf else Num (1 / real n))"

type_synonym vec3 = "jsnum \<times> jsnum \<times> jsnum"

definition vx :: "vec3 \<Rightarrow> jsnum" where
  "vx v = fst v"

text \<open>three.js \<open>Vector3.add\<close>, \<open>multiplyScalar\<close> and \<open>divideScalar\<close>; the last is
  \<open>multiplyScalar(1 / scalar)\<close>.\<close>

definition vadd :: "vec3 \<Rightarrow> vec3 \<Rightarrow> vec3" where
  "vadd u v = (case u of (a, b, c) \<Rightarrow> case v of (x, y, z) \<Rightarrow> (js_add a x, js_add b y, js_add c z))"

definition multiplyScalar :: "vec3 \<Rightarrow> jsnum \<Rightarrow> vec3" where
  "multiplyScalar v s = (case v of (x, y, z) \<Rightarrow> (js_mul x s, js_mul y s, js_mul z s))"

definition divideScalar :: "vec3 \<Rightarrow> nat \<Rightarrow> vec3" where
  "divideScalar v n = multiplyScalar v (js_recip_length n)"

section \<open>BufferGeometry\<close>

text \<open>
  A \<open>THREE.BufferGeometry\<close> as the processors use it: the \<open>position\<close> attribute (item
  size 3, so one entry per vertex), the optional \<open>color\<close> attribute (item size 3) and
  the optional index buffer, an unsigned-integer array read three entries at a time,
  one triple per triangle.

  The index is a buffer attribute holding the array, as a loader or \<open>setIndex\<close> on a
  plain array make it, or a bare typed array: \<open>setIndex\<close> stores an argument that is
  not a plain array as it is.
\<close>

type_synonym tri = "32 word \<times> 32 word \<times> 32 word"

datatype index_buffer = IndexAttribute "tri list" | BareArray "tri list"

record geometry =
  position :: "vec3 list"
  color :: "vec3 list option"
  index :: "index_buffer option"

text \<open>\<open>geometry.getIndex()?.array\<close>: the array of the index attribute, and \<open>undefined\<close>
  both when there is no index and when the index is a bare typed array, which has no
  property \<open>array\<close>.\<close>

definition index_array :: "geometry \<Rightarrow> tri list option" where
  "index_array g =
     (case index g of
        Some (IndexAttribute indices) \<Rightarrow> Some indices
      | _ \<Rightarrow> None)"

text \<open>\<open>getX(i)\<close>, \<open>getY(i)\<close>, \<open>getZ(i)\<close> of an attribute, and \<open>array[3 * i + k]\<close> of its
  array: \<open>undefined\<close> past the end.\<close>

definition getXYZ :: "vec3 list \<Rightarrow> nat \<Rightarrow> vec3" where
  "getXYZ arr i = (if i < length arr then arr ! i else (NaN, NaN, NaN))"

section \<open>point-cloud-processor.ts\<close>

record points =
  pgeometry :: geometry
  visible :: bool

record processor =
  geometry_of :: geometry
  levels :: "points list"

datatype quality = Low | Medium | High

definition getLODLevels :: "quality option \<Rightarrow> nat" where
  "getLODLevels q = (case (case q of None \<Rightarrow> Medium | Some q' \<Rightarrow> q') of
      Low \<Rightarrow> 2 | Medium \<Rightarrow> 4 | High \<Rightarrow> 6)"

text \<open>The copy loop of \<open>decimateGeometry\<close>: \<open>i\<close> counts output vertices, \<open>j\<close> is the
  source offset in vertices (the code's \<open>j / 3\<close>), advanced by \<open>stride\<close>.\<close>

function decimate_loop :: "vec3 list \<Rightarrow> nat \<Rightarrow> nat \<Rightarrow> nat \<Rightarrow> nat \<Rightarrow> vec3 list" where
  "decimate_loop arr vertexCount stride i j =
     (if i < vertexCount
      then getXYZ arr j # decimate_loop arr vertexCount stride (Suc i) (j + stride)
      else [])"
  by pat_completeness auto
termination
  by (relation "measure (\<lambda>(arr, vertexCount, stride, i, j). vertexCount - i)") auto

declare decimate_loop.simps [simp del]

text \<open>
  \<open>decimateGeometry(geometry, ratio)\<close>. \<open>vertexCount = floor(count * ratio)\<close> and
  \<open>stride = floor(1 / ratio)\<close>. A negative \<open>vertexCount\<close> makes \<open>new Float32Array\<close>
  throw; a missing colour attribute makes \<open>colors.array\<close> throw in the first
  iteration of the loop, if there is one. With \<open>ratio = 0\<close> the stride is infinite
  but the loop body never runs.
\<close>

definition decimateGeometry :: "geometry \<Rightarrow> real \<Rightarrow> js_error + geometry" where
  "decimateGeometry g ratio =
     (let vertexCount = \<lfloor>real (length (position g)) * ratio\<rfloor>;
          stride = nat \<lfloor>1 / ratio\<rfloor>
      in if vertexCount < 0 then Inl RangeError
         else (case color g of
                 None \<Rightarrow>
                   (if vertexCount = 0
                    then Inr \<lparr> position = [], color = Some [], index = None \<rparr>
                    else Inl TypeError)
               | Some colors \<Rightarrow>
                   Inr \<lparr> position = decimate_loop (position g) (nat vertexCount) stride 0 0,
                         color = Some (decimate_loop colors (nat vertexCount) stride 0 0),
                         index = None \<rparr>))"

text \<open>The loop of \<open>generateLODLevels\<close>: \<open>acc\<close> is \<open>this.levels\<close>, returned with the
  exception that stopped the loop, if any.\<close>

function lod_loop :: "geometry \<Rightarrow> nat \<Rightarrow> nat \<Rightarrow> points list \<Rightarrow> points list \<times> js_error option" where
  "lod_loop currentGeometry i n acc =
     (if i < n
      then (case decimateGeometry currentGeometry (1 / 2 ^ (i + 1)) of
              Inl e \<Rightarrow> (acc, Some e)
            | Inr simplifiedGeometry \<Rightarrow>
                lod_loop simplifiedGeometry (Suc i) n
                  (acc @ [\<lparr> pgeometry = simplifiedGeometry, visible = True \<rparr>]))
      else (acc, None))"
  by pat_completeness auto
termination
  by (relation "measure (\<lambda>(currentGeometry, i, n, acc). n - i)") auto

declare lod_loop.simps [simp del]

definition generateLODLevels :: "processor \<Rightarrow> nat \<Rightarrow> processor \<times> js_error option" where
  "generateLODLevels p n =
     (case lod_loop (geometry_of p) 0 n [] of (ls, e) \<Rightarrow> (p\<lparr> levels := ls \<rparr>, e))"

text \<open>
  \<open>updateLOD\<close>. The distance is the number that three.js \<open>distanceTo\<close> returns for
  the camera and the position of the points; it is an argument here. A comparison
  with \<open>NaN\<close> is false.
\<close>

definition js_greater :: "jsnum \<Rightarrow> real \<Rightarrow> bool" where
  "js_greater x c = (case x of Num r \<Rightarrow> r > c | PosInf \<Rightarrow> True | _ \<Rightarrow> False)"

definition activeLOD :: "jsnum \<Rightarrow> nat" where
  "activeLOD distance =
     (if js_greater distance 50 then 4
      else if js_greater distance 20 then 3
      else if js_greater distance 10 then 2
      else if js_greater distance 5 then 1
      else 0)"

fun show_only :: "nat \<Rightarrow> nat \<Rightarrow> points list \<Rightarrow> points list" where
  "show_only active i [] = []"
| "show_only active i (level # rest) =
     level\<lparr> visible := (i = active) \<rparr> # show_only active (Suc i) rest"

definition updateLOD :: "processor \<Rightarrow> jsnum \<Rightarrow> processor" where
  "updateLOD p distance = p\<lparr> levels := show_only (activeLOD distance) 0 (levels p) \<rparr>"

section \<open>image-processor.ts and video-processor.ts\<close>

text \<open>An \<open>ImageData\<close>: \<open>data\<close> is the row-major RGBA byte array.\<close>

record imageData =
  width :: nat
  height :: nat
  data :: "8 word list"

text \<open>\<open>data[i]\<close>: \<open>None\<close> stands for \<open>undefined\<close>, read past the end.\<close>

definition byte_at :: "8 word list \<Rightarrow> nat \<Rightarrow> real option" where
  "byte_at d i = (if i < length d then Some (real (unat (d ! i))) else None)"

text \<open>\<open>options.processingPreferences?.pointCloudDensity || 1\<close>, for a density that is a
  non-negative integer: a missing preference and the falsy value 0 both give 1.\<close>

definition density_of :: "nat option \<Rightarrow> nat" where
  "density_of pref = (case pref of None \<Rightarrow> 1 | Some d \<Rightarrow> if d = 0 then 1 else d)"

text \<open>
  The body of the two pixel loops, shared by \<open>generatePointCloud\<close> and
  \<open>reconstruct3DScene\<close>, which differ in the z coordinate only (\<open>zscale\<close> is 1 for the
  image, \<open>depth\<close> for a video frame). The result is what one iteration pushes to
  \<open>points\<close> and to \<open>colors\<close>: nothing, or one position and one colour. A comparison
  with \<open>undefined / 255\<close> (that is \<open>NaN\<close>) is false.
\<close>

definition pixel_sample :: "imageData \<Rightarrow> real \<Rightarrow> nat \<Rightarrow> nat \<Rightarrow> (vec3 \<times> vec3) list" where
  "pixel_sample f zscale y x =
     (let i = (y * width f + x) * 4
      in case (byte_at (data f) i, byte_at (data f) (i + 1), byte_at (data f) (i + 2),
               byte_at (data f) (i + 3)) of
           (Some r255, Some g255, Some b255, Some a255) \<Rightarrow>
             (let r = r255 / 255; g = g255 / 255; b = b255 / 255; a = a255 / 255
              in if a > 0.5
                 then [((Num ((real x - real (width f) / 2) / 50),
                         Num ((real (height f) / 2 - real y) / 50),
                         Num (zscale * ((r + g + b) / 3))),
                        (Num r, Num g, Num b))]
                 else [])
         | _ \<Rightarrow> [])"

text \<open>The loops \<open>for (x = 0; x < width; x += density)\<close> and the same over \<open>y\<close>.
  \<open>density\<close> is at least 1 at every call (see \<open>density_of\<close>); the guard \<open>0 < density\<close>
  only makes the recursion total.\<close>

function sample_cols :: "imageData \<Rightarrow> real \<Rightarrow> nat \<Rightarrow> nat \<Rightarrow> nat \<Rightarrow> (vec3 \<times> vec3) list" where
  "sample_cols f zscale density y x =
     (if x < width f \<and> 0 < density
      then pixel_sample f zscale y x @ sample_cols f zscale density y (x + density)
      else [])"
  by pat_completeness auto
termination
  by (relation "measure (\<lambda>(f, zscale, density, y, x). width f - x)") auto

declare sample_cols.simps [simp del]

function sample_rows :: "imageData \<Rightarrow> real \<Rightarrow> nat \<Rightarrow> nat \<Rightarrow> (vec3 \<times> vec3) list" where
  "sample_rows f zscale density y =
     (if y < height f \<and> 0 < density
      then sample_cols f zscale density y 0 @ sample_rows f zscale density (y + density)
      else [])"
  by pat_completeness auto
termination
  by (relation "measure (\<lambda>(f, zscale, density, y). height f - y)") auto

declare sample_rows.simps [simp del]

definition generatePointCloud :: "imageData \<Rightarrow> nat option \<Rightarrow> geometry" where
  "generatePointCloud imageData pointCloudDensity =
     (let density = density_of pointCloudDensity;
          samples = sample_rows imageData 1 density 0
      in \<lparr> position = map fst samples, color = Some (map snd samples), index = None \<rparr>)"

type_synonym rvec3 = "real \<times> real \<times> real"

text \<open>three.js \<open>Vector3.length\<close> and \<open>normalize\<close>, the latter being
  \<open>divideScalar(length() || 1)\<close>, on vectors of finite numbers.\<close>

definition vlength :: "rvec3 \<Rightarrow> real" where
  "vlength v = (case v of (x, y, z) \<Rightarrow> sqrt (x * x + y * y + z * z))"

definition normalize :: "rvec3 \<Rightarrow> rvec3" where
  "normalize v =
     (let s = (if vlength v = 0 then 1 else vlength v)
      in case v of (x, y, z) \<Rightarrow> (x * (1 / s), y * (1 / s), z * (1 / s)))"

text \<open>One iteration of the inner loop of \<open>calculateOpticalFlow\<close> on the running sums.
  A difference with \<open>undefined\<close> is \<open>NaN\<close>, and \<open>NaN > 30\<close> is false.\<close>

definition flow_pixel :: "imageData \<Rightarrow> imageData \<Rightarrow> nat \<Rightarrow> nat \<Rightarrow> real \<times> real \<Rightarrow> real \<times> real" where
  "flow_pixel frame1 frame2 y x acc =
     (let i = (y * width frame1 + x) * 4
      in case (byte_at (data frame2) i, byte_at (data frame1) i) of
           (Some p2, Some p1) \<Rightarrow>
             (if \<bar>p2 - p1\<bar> > 30
              then (fst acc + (real x - real (width frame1) / 2),
                    snd acc + (real y - real (height frame1) / 2))
              else acc)
         | _ \<Rightarrow> acc)"

definition flow_sums :: "imageData \<Rightarrow> imageData \<Rightarrow> real \<times> real" where
  "flow_sums frame1 frame2 =
     fold (\<lambda>y acc. fold (\<lambda>x acc'. flow_pixel frame1 frame2 y x acc') [0..<width frame1] acc)
       [0..<height frame1] (0, 0)"

definition calculateOpticalFlow :: "imageData \<Rightarrow> imageData \<Rightarrow> rvec3" where
  "calculateOpticalFlow frame1 frame2 =
     (case flow_sums frame1 frame2 of (dx, dy) \<Rightarrow> normalize (dx, dy, 0))"

text \<open>\<open>reconstruct3DScene\<close>: frame \<open>index\<close> takes \<open>motionVectors[index]\<close>, or the zero
  vector when there is none.\<close>

fun scene_frames :: "imageData list \<Rightarrow> rvec3 list \<Rightarrow> nat \<Rightarrow> nat \<Rightarrow> (vec3 \<times> vec3) list" where
  "scene_frames [] motionVectors density k = []"
| "scene_frames (frame # rest) motionVectors density k =
     (let motion = (if k < length motionVectors then motionVectors ! k else (0, 0, 0));
          depth = vlength motion * 10
      in sample_rows frame depth density 0 @ scene_frames rest motionVectors density (Suc k))"

definition reconstruct3DScene :: "imageData list \<Rightarrow> rvec3 list \<Rightarrow> nat option \<Rightarrow> geometry" where
  "reconstruct3DScene frames motionVectors pointCloudDensity =
     (let density = density_of pointCloudDensity;
          samples = scene_frames frames motionVectors density 0
      in \<lparr> position = map fst samples, color = Some (map snd samples), index = None \<rparr>)"

section \<open>mesh-processor.ts\<close>

type_synonym edge = "32 word \<times> 32 word"

fun buildEdgeList :: "vec3 list \<Rightarrow> tri list \<Rightarrow> edge list" where
  "buildEdgeList positions [] = []"
| "buildEdgeList positions ((a, b, c) # rest) =
     [(a, b), (b, c), (c, a)] @ buildEdgeList positions rest"

text \<open>The loop of \<open>collapseEdges\<close>. \<open>pop()\<close> on an empty array gives \<open>undefined\<close>, and
  destructuring it throws. \<open>mergeVertices\<close> has an empty body.\<close>

function collapse_loop :: "edge list \<Rightarrow> int \<Rightarrow> js_error + edge list" where
  "collapse_loop remainingEdges targetCount =
     (if int (length remainingEdges) > targetCount * 3
      then (if remainingEdges = [] then Inl TypeError
            else collapse_loop (butlast remainingEdges) targetCount)
      else Inr remainingEdges)"
  by pat_completeness auto
termination
  by (relation "measure (\<lambda>(remainingEdges, targetCount). length remainingEdges)") auto

declare collapse_loop.simps [simp del]

text \<open>\<open>collapseEdges\<close> returns \<open>new Uint32Array(newIndices)\<close>, and nothing is ever
  pushed to \<open>newIndices\<close>.\<close>

definition collapseEdges :: "edge list \<Rightarrow> int \<Rightarrow> js_error + tri list" where
  "collapseEdges edges targetCount =
     (case collapse_loop edges targetCount of
        Inl e \<Rightarrow> Inl e
      | Inr remainingEdges \<Rightarrow> Inr [])"

text \<open>\<open>simplifyGeometry\<close>: \<open>indices.length\<close> is three times the number of triangles.
  The new geometry gets the position attribute and the new index only; the index is
  the \<open>Uint32Array\<close> that \<open>collapseEdges\<close> returns, which \<open>setIndex\<close> stores bare.\<close>

definition simplifyGeometry :: "geometry \<Rightarrow> real \<Rightarrow> js_error + geometry" where
  "simplifyGeometry g simplificationRatio =
     (case index_array g of
        None \<Rightarrow> Inr g
      | Some indices \<Rightarrow>
          (let targetCount = \<lfloor>real (3 * length indices) / 3 * (1 - simplificationRatio)\<rfloor>;
               edges = buildEdgeList (position g) indices
           in case collapseEdges edges targetCount of
                Inl e \<Rightarrow> Inl e
              | Inr newIndices \<Rightarrow>
                  Inr \<lparr> position = position g, color = None,
                        index = Some (BareArray newIndices) \<rparr>))"

text \<open>
  The \<open>Map<string, number>\<close> of \<open>findBoundaries\<close> is an association list in insertion
  order (\<open>set\<close> on a present key keeps its place). Its key is the string
  \<open>min,max\<close> of two array entries in decimal, which line 166 splits back into the
  two numbers; the model keeps the pair.
\<close>

definition addEdge :: "(edge \<times> nat) list \<Rightarrow> 32 word \<Rightarrow> 32 word \<Rightarrow> (edge \<times> nat) list" where
  "addEdge edges a b =
     (let key = (min a b, max a b)
      in AList.update key ((case map_of edges key of None \<Rightarrow> 0 | Some n \<Rightarrow> n) + 1) edges)"

fun count_edges :: "tri list \<Rightarrow> (edge \<times> nat) list \<Rightarrow> (edge \<times> nat) list" where
  "count_edges [] edges = edges"
| "count_edges ((a, b, c) # rest) edges =
     count_edges rest (addEdge (addEdge (addEdge edges a b) b c) c a)"

definition findBoundaries :: "vec3 list \<Rightarrow> tri list \<Rightarrow> nat list list" where
  "findBoundaries positions indices =
     (let edges = count_edges indices []
      in map (\<lambda>(e, n). [unat (fst e), unat (snd e)]) (filter (\<lambda>(e, n). n = 1) edges))"

text \<open>
  \<open>triangulateHole\<close>. The class has no method \<open>findEar\<close>; it is a parameter here,
  returning an index. Reading \<open>.x\<close> of \<open>remaining[k]\<close> throws when \<open>k\<close> is past the
  end. Each \<open>push\<close> appends three numbers, kept as one triple.
\<close>

type_synonym numtri = "jsnum \<times> jsnum \<times> jsnum"

function triangulate_loop ::
  "(vec3 list \<Rightarrow> nat) \<Rightarrow> vec3 list \<Rightarrow> numtri list \<Rightarrow> js_error + (vec3 list \<times> numtri list)" where
  "triangulate_loop findEar remaining triangles =
     (if length remaining > 3
      then (let earIndex = findEar remaining;
                prev = (earIndex + length remaining - 1) mod length remaining;
                next = (earIndex + 1) mod length remaining
            in if earIndex < length remaining
               then triangulate_loop findEar
                      (take earIndex remaining @ drop (Suc earIndex) remaining)
                      (triangles @ [(vx (remaining ! prev), vx (remaining ! earIndex),
                                     vx (remaining ! next))])
               else Inl TypeError)
      else Inr (remaining, triangles))"
  by pat_completeness auto
termination
  by (relation "measure (\<lambda>(findEar, remaining, triangles). length remaining)") auto

declare triangulate_loop.simps [simp del]

definition triangulateHole :: "(vec3 list \<Rightarrow> nat) \<Rightarrow> vec3 list \<Rightarrow> js_error + numtri list" where
  "triangulateHole findEar vertices =
     (case triangulate_loop findEar vertices [] of
        Inl e \<Rightarrow> Inl e
      | Inr (remaining, triangles) \<Rightarrow>
          (if 3 \<le> length remaining
           then Inr (triangles @ [(vx (remaining ! 0), vx (remaining ! 1), vx (remaining ! 2))])
           else Inl TypeError))"

text \<open>
  three.js \<open>setIndex\<close> on a plain array: a \<open>Uint32Array\<close> when some entry is
  \<open>>= 65535\<close>, a \<open>Uint16Array\<close> otherwise; storing a number in either truncates it
  towards zero and reduces it modulo the array's range, \<open>NaN\<close> and the infinities
  becoming 0.
\<close>

definition js_ge65535 :: "jsnum \<Rightarrow> bool" where
  "js_ge65535 x = (case x of Num r \<Rightarrow> r \<ge> 65535 | PosInf \<Rightarrow> True | _ \<Rightarrow> False)"

definition arrayNeedsUint32 :: "numtri list \<Rightarrow> bool" where
  "arrayNeedsUint32 xs = list_ex (\<lambda>(a, b, c). js_ge65535 a \<or> js_ge65535 b \<or> js_ge65535 c) xs"

definition js_trunc :: "real \<Rightarrow> int" where
  "js_trunc r = (if 0 \<le> r then \<lfloor>r\<rfloor> else \<lceil>r\<rceil>)"

definition toUint :: "bool \<Rightarrow> jsnum \<Rightarrow> 32 word" where
  "toUint wide x =
     (case x of
        Num r \<Rightarrow> word_of_int (if wide then js_trunc r else js_trunc r mod 65536)
      | _ \<Rightarrow> 0)"

definition setIndex :: "numtri list \<Rightarrow> tri list" where
  "setIndex xs =
     (let wide = arrayNeedsUint32 xs
      in map (\<lambda>(a, b, c). (toUint wide a, toUint wide b, toUint wide c)) xs)"

definition num_of_word :: "32 word \<Rightarrow> jsnum" where
  "num_of_word w = Num (real (unat w))"

text \<open>
  \<open>fillHole\<close> mutates the geometry; the result is the geometry after the call and the
  exception that ended it, if any. \<open>Array.from(geometry.getIndex()!.array)\<close> throws
  on a geometry without index and on one whose index is a bare typed array.
\<close>

definition fillHole :: "(vec3 list \<Rightarrow> nat) \<Rightarrow> geometry \<Rightarrow> nat list \<Rightarrow> geometry \<times> js_error option" where
  "fillHole findEar g boundary =
     (let holeVertices = map (getXYZ (position g)) boundary
      in case triangulateHole findEar holeVertices of
           Inl e \<Rightarrow> (g, Some e)
         | Inr triangles \<Rightarrow>
             (case index_array g of
                None \<Rightarrow> (g, Some TypeError)
              | Some ix \<Rightarrow>
                  (let indices = map (\<lambda>(a, b, c). (num_of_word a, num_of_word b, num_of_word c)) ix
                                 @ triangles
                   in (g\<lparr> index := Some (IndexAttribute (setIndex indices)) \<rparr>, None))))"

fun fill_each :: "(vec3 list \<Rightarrow> nat) \<Rightarrow> geometry \<Rightarrow> nat list list \<Rightarrow> geometry \<times> js_error option" where
  "fill_each findEar g [] = (g, None)"
| "fill_each findEar g (boundary # rest) =
     (case fillHole findEar g boundary of
        (g', Some e) \<Rightarrow> (g', Some e)
      | (g', None) \<Rightarrow> fill_each findEar g' rest)"

definition fillHoles :: "(vec3 list \<Rightarrow> nat) \<Rightarrow> geometry \<Rightarrow> geometry \<times> js_error option" where
  "fillHoles findEar g =
     (case index_array g of
        None \<Rightarrow> (g, None)
      | Some indices \<Rightarrow> fill_each findEar g (findBoundaries (position g) indices))"

text \<open>A JavaScript \<open>Set\<close> of numbers, in insertion order.\<close>

definition set_add :: "nat list \<Rightarrow> nat \<Rightarrow> nat list" where
  "set_add s x = (if x \<in> set s then s else s @ [x])"

fun neighbors_loop :: "tri list \<Rightarrow> nat \<Rightarrow> nat list \<Rightarrow> nat list" where
  "neighbors_loop [] vertexIndex neighbors = neighbors"
| "neighbors_loop ((a, b, c) # rest) vertexIndex neighbors =
     neighbors_loop rest vertexIndex
       (if unat a = vertexIndex then set_add (set_add neighbors (unat b)) (unat c)
        else if unat b = vertexIndex then set_add (set_add neighbors (unat a)) (unat c)
        else if unat c = vertexIndex then set_add (set_add neighbors (unat a)) (unat b)
        else neighbors)"

definition findVertexNeighbors :: "geometry \<Rightarrow> nat \<Rightarrow> js_error + nat list" where
  "findVertexNeighbors g vertexIndex =
     (case index_array g of
        None \<Rightarrow> Inl TypeError
      | Some indices \<Rightarrow> Inr (neighbors_loop indices vertexIndex []))"

text \<open>One iteration of the loop of \<open>smoothGeometry\<close>: the value written to
  \<open>smoothedPositions\<close> for vertex \<open>i\<close>.\<close>

definition smooth_vertex :: "geometry \<Rightarrow> nat \<Rightarrow> js_error + vec3" where
  "smooth_vertex g i =
     (case findVertexNeighbors g i of
        Inl e \<Rightarrow> Inl e
      | Inr neighbors \<Rightarrow>
          Inr (divideScalar
                 (fold (\<lambda>neighbor centroid. vadd centroid (getXYZ (position g) neighbor))
                    neighbors (Num 0, Num 0, Num 0))
                 (length neighbors)))"

fun smooth_loop :: "geometry \<Rightarrow> nat list \<Rightarrow> js_error + vec3 list" where
  "smooth_loop g [] = Inr []"
| "smooth_loop g (i # rest) =
     (case smooth_vertex g i of
        Inl e \<Rightarrow> Inl e
      | Inr v \<Rightarrow> (case smooth_loop g rest of Inl e \<Rightarrow> Inl e | Inr vs \<Rightarrow> Inr (v # vs)))"

definition smoothGeometry :: "geometry \<Rightarrow> js_error + geometry" where
  "smoothGeometry g =
     (case smooth_loop g [0..<length (position g)] of
        Inl e \<Rightarrow> Inl e
      | Inr smoothedPositions \<Rightarrow> Inr (g\<lparr> position := smoothedPositions \<rparr>))"

text \<open>
  \<open>optimizeMesh\<close>, the only caller of the three operations. No \<open>mergeVertices\<close> is
  defined in the repository; it is a parameter here. \<open>computeVertexNormals\<close> writes the
  normal attribute only. The preference \<open>geometrySimplification\<close> is a number or absent,
  and the guard is false when it is absent or 0. An exception of a stage rejects the
  promise.
\<close>

definition optimizeMesh ::
  "(geometry \<Rightarrow> geometry) \<Rightarrow> (vec3 list \<Rightarrow> nat) \<Rightarrow> geometry \<Rightarrow> real option
     \<Rightarrow> js_error + geometry" where
  "optimizeMesh mergeVertices findEar geometry geometrySimplification =
     (let merged = mergeVertices geometry;
          simplified =
            (case geometrySimplification of
               None \<Rightarrow> Inr merged
             | Some ratio \<Rightarrow> if ratio = 0 then Inr merged else simplifyGeometry merged ratio)
      in case simplified of
           Inl e \<Rightarrow> Inl e
         | Inr g \<Rightarrow>
             (case fillHoles findEar g of
                (g', Some e) \<Rightarrow> Inl e
              | (g', None) \<Rightarrow> smoothGeometry g'))"

section \<open>Reference definitions and concrete inputs\<close>

definition empty_cloud :: geometry where
  "empty_cloud = \<lparr> position = [], color = Some [], index = None \<rparr>"

definition level_of :: "geometry \<Rightarrow> points" where
  "level_of g = \<lparr> pgeometry = g, visible = True \<rparr>"

text \<open>A processor holding \<open>n\<close> levels.\<close>

definition processor_with :: "nat \<Rightarrow> processor" where
  "processor_with n = \<lparr> geometry_of = empty_cloud,
      levels = replicate n (level_of empty_cloud) \<rparr>"

text \<open>
  The words of the specification on edges: an edge is the unordered pair of two corners of
  a triangle, canonicalised as (min, max); its incidence is the number of times the
  triangles of the mesh have it as a side.
\<close>

definition canonical :: "32 word \<Rightarrow> 32 word \<Rightarrow> edge" where
  "canonical a b = (min a b, max a b)"

fun mesh_edges :: "tri list \<Rightarrow> edge list" where
  "mesh_edges [] = []"
| "mesh_edges ((a, b, c) # rest) = [canonical a b, canonical b c, canonical c a] @ mesh_edges rest"

definition incidence :: "tri list \<Rightarrow> edge \<Rightarrow> nat" where
  "incidence indices e = count_list (mesh_edges indices) e"

text \<open>Two closed tetrahedra, on the vertices 0 1 2 3 and 0 1 4 5, sharing the edge 0-1.\<close>

definition two_tetrahedra :: "tri list" where
  "two_tetrahedra = [(0, 1, 2), (0, 3, 1), (1, 3, 2), (2, 3, 0),
                     (0, 1, 4), (0, 5, 1), (1, 5, 4), (4, 5, 0)]"

definition tetrahedron :: "tri list" where
  "tetrahedron = [(0, 1, 2), (0, 3, 1), (1, 3, 2), (2, 3, 0)]"

definition one_triangle :: "tri list" where
  "one_triangle = [(0, 1, 2)]"

text \<open>The count stored under a key, 0 when absent.\<close>

definition tally :: "(edge \<times> nat) list \<Rightarrow> edge \<Rightarrow> nat" where
  "tally m e = (case map_of m e of None \<Rightarrow> 0 | Some n \<Rightarrow> n)"

text \<open>The invariant of the specification's mesh: every index of a triangle is smaller
  than the number of vertices.\<close>

definition index_entries :: "index_buffer \<Rightarrow> tri list" where
  "index_entries b = (case b of IndexAttribute ix \<Rightarrow> ix | BareArray ix \<Rightarrow> ix)"

definition valid_indices :: "geometry \<Rightarrow> bool" where
  "valid_indices g =
     (case index g of
        None \<Rightarrow> True
      | Some b \<Rightarrow>
          list_all (\<lambda>(a, b, c). unat a < length (position g) \<and> unat b < length (position g)
                       \<and> unat c < length (position g)) (index_entries b))"

text \<open>One triangle on three vertices, whose x coordinates are 5, 7 and 9.\<close>

definition triangle_mesh :: geometry where
  "triangle_mesh =
     \<lparr> position = [(Num 5, Num 0, Num 0), (Num 7, Num 0, Num 0), (Num 9, Num 1, Num 0)],
       color = None, index = Some (IndexAttribute one_triangle) \<rparr>"

definition tetrahedron_mesh :: geometry where
  "tetrahedron_mesh =
     \<lparr> position = [(Num 0, Num 0, Num 0), (Num 1, Num 0, Num 0), (Num 0, Num 1, Num 0),
                   (Num 0, Num 0, Num 1)],
       color = None, index = Some (IndexAttribute tetrahedron) \<rparr>"

text \<open>One triangle on the vertices 0, 1, 2 and a fourth vertex that no triangle uses.\<close>

definition lone_vertex_mesh :: geometry where
  "lone_vertex_mesh =
     \<lparr> position = [(Num 0, Num 0, Num 0), (Num 2, Num 0, Num 0), (Num 0, Num 2, Num 0),
                   (Num 1, Num 2, Num 3)],
       color = None, index = Some (IndexAttribute one_triangle) \<rparr>"

text \<open>Two vertices and an empty index buffer: every vertex has zero neighbours.\<close>

definition unconnected_mesh :: geometry where
  "unconnected_mesh =
     \<lparr> position = [(Num 1, Num 2, Num 3), (Num 4, Num 5, Num 6)], color = None,
       index = Some (IndexAttribute []) \<rparr>"

text \<open>Point clouds for the level generator: a point on the x axis, and a processor whose
  geometry has the given positions (and the same values as colours).\<close>

definition pt :: "real \<Rightarrow> vec3" where
  "pt r = (Num r, Num 0, Num 0)"

definition cloud_of :: "vec3 list \<Rightarrow> processor" where
  "cloud_of ps = \<lparr> geometry_of = \<lparr> position = ps, color = Some ps, index = None \<rparr>,
      levels = [] \<rparr>"

definition level_sizes :: "processor \<Rightarrow> nat list" where
  "level_sizes p = map (\<lambda>l. length (position (pgeometry l))) (levels p)"

text \<open>The exponent of the cumulated stride: level \<open>i + k\<close> is decimated from the
  geometry entering iteration \<open>i\<close> by \<open>2 ^ (i + 1) * ... * 2 ^ (i + k + 1)\<close>.\<close>

fun ladder_exponent :: "nat \<Rightarrow> nat \<Rightarrow> nat" where
  "ladder_exponent i 0 = i + 1"
| "ladder_exponent i (Suc k) = (i + 1) + ladder_exponent (Suc i) k"

definition eight_points :: "vec3 list" where
  "eight_points = [pt 0, pt 1, pt 2, pt 3, pt 4, pt 5, pt 6, pt 7]"

text \<open>
  The words of the specification on frame sampling. A frame is well formed when its
  buffer has \<open>width * height * 4\<close> bytes. Sampling visits the rows and columns that
  are multiples of the stride, row-major; \<open>channel f y x c\<close> is the normalised
  channel \<open>c\<close> (3 is alpha) of a pixel, and a pixel is dropped when its alpha is
  \<open>< alphaThreshold\<close>.
\<close>

definition well_formed :: "imageData \<Rightarrow> bool" where
  "well_formed f = (length (data f) = width f * height f * 4)"

definition visited :: "nat \<Rightarrow> nat \<Rightarrow> nat list" where
  "visited n stride = filter (\<lambda>k. stride dvd k) [0..<n]"

definition sampled_pixels :: "imageData \<Rightarrow> nat \<Rightarrow> (nat \<times> nat) list" where
  "sampled_pixels f stride =
     concat (map (\<lambda>y. map (\<lambda>x. (y, x)) (visited (width f) stride)) (visited (height f) stride))"

definition channel :: "imageData \<Rightarrow> nat \<Rightarrow> nat \<Rightarrow> nat \<Rightarrow> real" where
  "channel f y x c = real (unat (data f ! ((y * width f + x) * 4 + c))) / 255"

definition retained :: "imageData \<Rightarrow> nat \<Rightarrow> real \<Rightarrow> (nat \<times> nat) list" where
  "retained f stride alphaThreshold =
     filter (\<lambda>(y, x). \<not> channel f y x 3 < alphaThreshold) (sampled_pixels f stride)"

text \<open>The position and colour that the code computes for a retained pixel.\<close>

definition point_of :: "imageData \<Rightarrow> real \<Rightarrow> nat \<times> nat \<Rightarrow> vec3 \<times> vec3" where
  "point_of f zscale p = (case p of (y, x) \<Rightarrow>
     ((Num ((real x - real (width f) / 2) / 50),
       Num ((real (height f) / 2 - real y) / 50),
       Num (zscale * ((channel f y x 0 + channel f y x 1 + channel f y x 2) / 3))),
      (Num (channel f y x 0), Num (channel f y x 1), Num (channel f y x 2))))"

text \<open>\<open>depth\<close> of frame \<open>k\<close> in \<open>reconstruct3DScene\<close>.\<close>

definition depth_of :: "rvec3 list \<Rightarrow> nat \<Rightarrow> real" where
  "depth_of motionVectors k =
     vlength (if k < length motionVectors then motionVectors ! k else (0, 0, 0)) * 10"

definition retained_points :: "imageData \<Rightarrow> real \<Rightarrow> nat \<Rightarrow> real \<Rightarrow> (vec3 \<times> vec3) list" where
  "retained_points f zscale stride alphaThreshold =
     map (point_of f zscale) (retained f stride alphaThreshold)"

definition of_samples :: "(vec3 \<times> vec3) list \<Rightarrow> geometry" where
  "of_samples samples = \<lparr> position = map fst samples, color = Some (map snd samples), index = None \<rparr>"

text \<open>A 2 x 2 frame: three opaque white pixels and one of alpha 51 / 255 = 0.2.\<close>

definition frame_2x2 :: imageData where
  "frame_2x2 = \<lparr> width = 2, height = 2,
      data = [255, 255, 255, 255,  255, 255, 255, 51,
              255, 255, 255, 255,  255, 255, 255, 255] \<rparr>"

text \<open>A single pixel of alpha 0.2.\<close>

definition frame_1x1 :: imageData where
  "frame_1x1 = \<lparr> width = 1, height = 1, data = [255, 255, 255, 51] \<rparr>"

text \<open>
  The words of the specification on motion estimation: a pixel has changed when the
  absolute difference of its red channel between the frames exceeds 30 (of 255); the
  accumulated offset sums, over the changed pixels, their offset from the frame
  centre.
\<close>

definition red_changed :: "imageData \<Rightarrow> imageData \<Rightarrow> nat \<Rightarrow> nat \<Rightarrow> bool" where
  "red_changed frame1 frame2 y x =
     (let i = (y * width frame1 + x) * 4
      in \<bar>real (unat (data frame2 ! i)) - real (unat (data frame1 ! i))\<bar> > 30)"

definition changed_pixels :: "imageData \<Rightarrow> imageData \<Rightarrow> (nat \<times> nat) list" where
  "changed_pixels frame1 frame2 =
     concat (map (\<lambda>y. map (\<lambda>x. (y, x)) (filter (red_changed frame1 frame2 y) [0..<width frame1]))
       [0..<height frame1])"

definition accumulated_offset :: "imageData \<Rightarrow> imageData \<Rightarrow> real \<times> real" where
  "accumulated_offset frame1 frame2 =
     (sum_list (map (\<lambda>(y, x). real x - real (width frame1) / 2) (changed_pixels frame1 frame2)),
      sum_list (map (\<lambda>(y, x). real y - real (height frame1) / 2) (changed_pixels frame1 frame2)))"

definition equal_sized :: "imageData \<Rightarrow> imageData \<Rightarrow> bool" where
  "equal_sized frame1 frame2 =
     (well_formed frame1 \<and> well_formed frame2 \<and> width frame2 = width frame1 \<and> height frame2 = height frame1)"

text \<open>Two 4 x 2 frames: the red channel rises by 200 in the whole first row and in the
  pixel (x = 1, y = 1), and by 30, which is not above the threshold, in (x = 3, y = 1).\<close>

definition frame_dark :: imageData where
  "frame_dark = \<lparr> width = 4, height = 2,
      data = [0, 0, 0, 255,  0, 0, 0, 255,  0, 0, 0, 255,  0, 0, 0, 255,
              0, 0, 0, 255,  0, 0, 0, 255,  0, 0, 0, 255,  0, 0, 0, 255] \<rparr>"

definition frame_moved :: imageData where
  "frame_moved = \<lparr> width = 4, height = 2,
      data = [200, 0, 0, 255,  200, 0, 0, 255,  200, 0, 0, 255,  200, 0, 0, 255,
              0, 0, 0, 255,  200, 0, 0, 255,  0, 0, 0, 255,  30, 0, 0, 255] \<rparr>"

section \<open>Level selection\<close>

lemma show_only_filter_visible:
  "length (filter visible (show_only a i ls)) = (if i \<le> a \<and> a < i + length ls then 1 else 0)"
proof (induction ls arbitrary: i)
  case Nil
  then show ?case by simp
next
  case (Cons l ls)
  have "length (filter visible (show_only a (Suc i) ls))
        = (if Suc i \<le> a \<and> a < Suc i + length ls then 1 else 0)"
    by (rule Cons.IH)
  then show ?case by auto
qed

lemma updateLOD_far_hides_short_sequence:
  assumes "50 < d" and "length (levels p) \<le> 4"
  shows "filter visible (levels (updateLOD p (Num d))) = []"
proof -
  have "activeLOD (Num d) = 4" using assms(1) by (simp add: activeLOD_def js_greater_def)
  then have "length (filter visible (levels (updateLOD p (Num d)))) = 0"
    using assms(2) by (simp add: updateLOD_def show_only_filter_visible)
  then show ?thesis by simp
qed

text \<open>
  C5 states that after level selection exactly one level is visible, the highest-index
  level when the distance exceeds 50. The code does not do that: \<open>updateLOD\<close> selects
  the fixed index 4 there. At distance 60, with the 2 levels of quality \<open>low\<close> and with
  the 4 levels of the default quality no level is visible, and with the 6 levels of
  quality \<open>high\<close> level 4 is visible, not the highest level 5.
\<close>

theorem updateLOD_far_shows_fixed_index:
  "map visible (levels (updateLOD (processor_with (getLODLevels (Some Low))) (Num 60)))
     = [False, False]
   \<and> map visible (levels (updateLOD (processor_with (getLODLevels None)) (Num 60)))
     = [False, False, False, False]
   \<and> map visible (levels (updateLOD (processor_with (getLODLevels (Some High))) (Num 60)))
     = [False, False, False, False, True, False]"
  by (simp add: updateLOD_def processor_with_def activeLOD_def js_greater_def eval_nat_numeral
      level_of_def getLODLevels_def)

section \<open>Boundary detection\<close>

lemma tally_addEdge:
  "tally (addEdge m a b) e = tally m e + (if e = canonical a b then 1 else 0)"
  by (simp add: addEdge_def tally_def canonical_def Let_def update_conv')

lemma keys_addEdge: "fst ` set (addEdge m a b) = insert (canonical a b) (fst ` set m)"
  by (simp add: addEdge_def canonical_def Let_def dom_update)

lemma distinct_addEdge: "distinct (map fst m) \<Longrightarrow> distinct (map fst (addEdge m a b))"
  by (simp add: addEdge_def Let_def distinct_update)

lemma tally_count_edges:
  "tally (count_edges ix m) e = tally m e + count_list (mesh_edges ix) e"
  by (induction ix m rule: count_edges.induct) (auto simp: tally_addEdge)

lemma keys_count_edges:
  "fst ` set (count_edges ix m) = fst ` set m \<union> set (mesh_edges ix)"
  by (induction ix m rule: count_edges.induct) (auto simp: keys_addEdge)

lemma distinct_count_edges:
  "distinct (map fst m) \<Longrightarrow> distinct (map fst (count_edges ix m))"
  by (induction ix m rule: count_edges.induct) (auto simp: distinct_addEdge)

lemma entry_count_edges:
  "(e, n) \<in> set (count_edges ix []) \<longleftrightarrow> e \<in> set (mesh_edges ix) \<and> n = incidence ix e"
proof -
  let ?m = "count_edges ix []"
  have d: "distinct (map fst ?m)" by (rule distinct_count_edges) simp
  have k: "fst ` set ?m = set (mesh_edges ix)" by (simp add: keys_count_edges)
  have "tally [] e = 0" by (simp add: tally_def)
  then have t: "tally ?m e = incidence ix e" by (simp add: tally_count_edges incidence_def)
  show ?thesis
  proof
    assume a: "(e, n) \<in> set ?m"
    then have "map_of ?m e = Some n" using d by simp
    then have "tally ?m e = n" by (simp add: tally_def)
    moreover have "e \<in> fst ` set ?m" using a by force
    ultimately show "e \<in> set (mesh_edges ix) \<and> n = incidence ix e" using k t by simp
  next
    assume a: "e \<in> set (mesh_edges ix) \<and> n = incidence ix e"
    then have "e \<in> fst ` set ?m" using k by simp
    then obtain n' where n': "(e, n') \<in> set ?m" by auto
    then have "map_of ?m e = Some n'" using d by simp
    then have "tally ?m e = n'" by (simp add: tally_def)
    then show "(e, n) \<in> set ?m" using n' t a by simp
  qed
qed

text \<open>
  C9, as stated, fails: two closed tetrahedra sharing an edge have no boundary edge, so
  \<open>findBoundaries\<close> returns nothing, yet the shared edge has incidence 4.
\<close>

theorem findBoundaries_shared_edge_counterexample:
  "findBoundaries [] two_tetrahedra = [] \<and> (0, 1) \<in> set (mesh_edges two_tetrahedra)
   \<and> incidence two_tetrahedra (0, 1) = 4"
  by (simp add: findBoundaries_def two_tetrahedra_def addEdge_def incidence_def canonical_def)

text \<open>
  C9, amended: \<open>findBoundaries\<close> returns an empty sequence if and only if no canonical
  edge of the mesh has incidence exactly 1; in particular it returns an empty sequence
  when every canonical edge has incidence exactly 2.
\<close>

theorem findBoundaries_empty_iff:
  "(findBoundaries positions indices = []
      \<longleftrightarrow> (\<forall>e \<in> set (mesh_edges indices). incidence indices e \<noteq> 1))
   \<and> ((\<forall>e \<in> set (mesh_edges indices). incidence indices e = 2)
      \<longrightarrow> findBoundaries positions indices = [])"
proof -
  have "findBoundaries positions indices = []
        \<longleftrightarrow> (\<forall>(e, n) \<in> set (count_edges indices []). n \<noteq> 1)"
    by (auto simp: findBoundaries_def Let_def filter_empty_conv)
  also have "\<dots> \<longleftrightarrow> (\<forall>e \<in> set (mesh_edges indices). incidence indices e \<noteq> 1)"
  proof
    assume h: "\<forall>(e, n) \<in> set (count_edges indices []). n \<noteq> 1"
    show "\<forall>e \<in> set (mesh_edges indices). incidence indices e \<noteq> 1"
    proof
      fix e assume "e \<in> set (mesh_edges indices)"
      then have "(e, incidence indices e) \<in> set (count_edges indices [])"
        by (simp add: entry_count_edges)
      then show "incidence indices e \<noteq> 1" using h by blast
    qed
  next
    assume h: "\<forall>e \<in> set (mesh_edges indices). incidence indices e \<noteq> 1"
    show "\<forall>(e, n) \<in> set (count_edges indices []). n \<noteq> 1"
      using h by (auto simp: entry_count_edges)
  qed
  finally have main: "findBoundaries positions indices = []
      \<longleftrightarrow> (\<forall>e \<in> set (mesh_edges indices). incidence indices e \<noteq> 1)" .
  then show ?thesis by auto
qed

theorem findBoundaries_empty_iff_witness:
  "findBoundaries [] tetrahedron = [] \<and> list_all (\<lambda>e. incidence tetrahedron e = 2) (mesh_edges tetrahedron)
   \<and> findBoundaries [] one_triangle = [[0, 1], [1, 2], [0, 2]]
   \<and> incidence one_triangle (0, 1) = 1"
proof -
  have e: "list_all (\<lambda>e. incidence tetrahedron e = 2) (mesh_edges tetrahedron)"
    by (simp add: tetrahedron_def incidence_def canonical_def)
  then have "\<forall>e \<in> set (mesh_edges tetrahedron). incidence tetrahedron e = 2"
    by (simp add: list_all_iff)
  then have "findBoundaries [] tetrahedron = []"
    using findBoundaries_empty_iff [of "[]" tetrahedron] by blast
  moreover have "findBoundaries [] one_triangle = [[0, 1], [1, 2], [0, 2]]"
    by (simp add: findBoundaries_def one_triangle_def addEdge_def)
  moreover have "incidence one_triangle (0, 1) = 1"
    by (simp add: one_triangle_def incidence_def canonical_def)
  ultimately show ?thesis using e by simp
qed

section \<open>Hole filling\<close>

lemma js_trunc_of_nat: "js_trunc (real n) = int n"
  by (simp add: js_trunc_def)

lemma toUint_of_nat:
  "wide \<or> n < 65535 \<Longrightarrow> toUint wide (Num (real n)) = word_of_nat n"
proof (cases wide)
  case True
  then show ?thesis by (simp add: toUint_def js_trunc_of_nat)
next
  case False
  assume "wide \<or> n < 65535"
  with False have "int n mod 65536 = int n" by simp
  with False show ?thesis by (simp add: toUint_def js_trunc_of_nat)
qed

lemma js_ge65535_of_nat: "js_ge65535 (Num (real n)) \<longleftrightarrow> 65535 \<le> n"
  by (simp add: js_ge65535_def)

lemma toUint_num_of_word:
  assumes "wide \<or> \<not> js_ge65535 (num_of_word w)"
  shows "toUint wide (num_of_word w) = w"
proof -
  have "wide \<or> unat w < 65535"
    using assms unfolding num_of_word_def js_ge65535_of_nat by auto
  then have "toUint wide (Num (real (unat w))) = word_of_nat (unat w)"
    by (rule toUint_of_nat)
  then show ?thesis unfolding num_of_word_def by simp
qed

lemma setIndex_keeps_stored:
  "take (length ix) (setIndex (map (\<lambda>(a, b, c). (num_of_word a, num_of_word b, num_of_word c)) ix @ ts)) = ix"
proof -
  let ?f = "\<lambda>(a, b, c). (num_of_word a, num_of_word b, num_of_word c)"
  let ?xs = "map ?f ix @ ts"
  let ?w = "arrayNeedsUint32 ?xs"
  have ok: "?w \<or> \<not> js_ge65535 (num_of_word a) \<and> \<not> js_ge65535 (num_of_word b) \<and> \<not> js_ge65535 (num_of_word c)"
    if "(a, b, c) \<in> set ix" for a b c
  proof (cases ?w)
    case True then show ?thesis by simp
  next
    case False
    have "(num_of_word a, num_of_word b, num_of_word c) \<in> set ?xs" using that by force
    moreover from False have "\<forall>x \<in> set ?xs. \<not> (case x of (a, b, c) \<Rightarrow> js_ge65535 a \<or> js_ge65535 b \<or> js_ge65535 c)"
      unfolding arrayNeedsUint32_def list_ex_iff by blast
    ultimately have "\<not> (case (num_of_word a, num_of_word b, num_of_word c) of (a, b, c) \<Rightarrow> js_ge65535 a \<or> js_ge65535 b \<or> js_ge65535 c)"
      by blast
    then show ?thesis by simp
  qed
  have "map (\<lambda>t. (\<lambda>(a, b, c). (toUint ?w a, toUint ?w b, toUint ?w c)) (?f t)) ix = ix"
  proof (rule map_idI)
    fix t assume t: "t \<in> set ix"
    obtain a b c where abc: "t = (a, b, c)" by (cases t)
    from ok[of a b c] t abc
    have "toUint ?w (num_of_word a) = a" "toUint ?w (num_of_word b) = b"
      "toUint ?w (num_of_word c) = c"
      by (auto intro: toUint_num_of_word)
    then show "(\<lambda>(a, b, c). (toUint ?w a, toUint ?w b, toUint ?w c)) (?f t) = t"
      by (simp add: abc)
  qed
  then have "map (\<lambda>(a, b, c). (toUint ?w a, toUint ?w b, toUint ?w c)) (map ?f ix) = ix"
    by (simp add: comp_def)
  then show ?thesis by (simp add: setIndex_def Let_def)
qed

lemma setIndex_prefix:
  "prefix ix (setIndex (map (\<lambda>(a, b, c). (num_of_word a, num_of_word b, num_of_word c)) ix @ ts))"
  by (metis setIndex_keeps_stored take_is_prefix)

lemma index_array_attribute: "index g = Some (IndexAttribute ix) \<Longrightarrow> index_array g = Some ix"
  by (simp add: index_array_def)

lemma index_array_bare: "index g = Some (BareArray ix) \<Longrightarrow> index_array g = None"
  by (simp add: index_array_def)

lemma fillHole_append_only:
  assumes "fillHole findEar g boundary = (g', err)" and "index g = Some (IndexAttribute ix)"
  shows "position g' = position g
       \<and> (\<exists>ix'. index g' = Some (IndexAttribute ix') \<and> prefix ix ix')"
  using assms
  by (auto simp: fillHole_def Let_def setIndex_prefix index_array_attribute split: sum.splits)

lemma fill_each_append_only:
  "fill_each findEar g bs = (g', err) \<Longrightarrow> index g = Some (IndexAttribute ix) \<Longrightarrow>
   position g' = position g \<and> (\<exists>ix'. index g' = Some (IndexAttribute ix') \<and> prefix ix ix')"
proof (induction bs arbitrary: g ix)
  case Nil
  then show ?case by simp
next
  case (Cons b bs)
  obtain g1 e1 where f: "fillHole findEar g b = (g1, e1)" by (cases "fillHole findEar g b")
  from fillHole_append_only[OF f Cons.prems(2)]
  obtain ix1 where p1: "position g1 = position g" and i1: "index g1 = Some (IndexAttribute ix1)"
    and pre1: "prefix ix ix1"
    by blast
  show ?case
  proof (cases e1)
    case (Some e)
    with Cons.prems(1) f have "g' = g1" by simp
    then show ?thesis using p1 i1 pre1 by simp
  next
    case None
    with Cons.prems(1) f have "fill_each findEar g1 bs = (g', err)" by simp
    from Cons.IH[OF this i1] obtain ix' where "position g' = position g1"
      "index g' = Some (IndexAttribute ix')" "prefix ix1 ix'"
      by blast
    then show ?thesis using p1 pre1 by (auto intro: prefix_order.trans)
  qed
qed

text \<open>
  C10: \<open>fillHoles\<close> on a geometry with an index buffer leaves the position attribute
  unchanged, and the index buffer it leaves behind starts with the input's index
  buffer: entries are only appended. This covers a call that ends in an exception
  too, since the geometry is the state the call leaves.
\<close>

theorem fillHoles_append_only:
  assumes "index g = Some b" and "fillHoles findEar g = (g', err)"
  shows "position g' = position g
       \<and> (\<exists>b'. index g' = Some b' \<and> prefix (index_entries b) (index_entries b'))"
proof (cases b)
  case (IndexAttribute ix)
  with assms(1) have i: "index g = Some (IndexAttribute ix)" by simp
  from assms(2) have "fill_each findEar g (findBoundaries (position g) ix) = (g', err)"
    by (simp add: fillHoles_def index_array_attribute[OF i])
  from fill_each_append_only[OF this i]
  obtain ix' where "position g' = position g" "index g' = Some (IndexAttribute ix')"
    "prefix ix ix'"
    by blast
  then show ?thesis using IndexAttribute by (simp add: index_entries_def)
next
  case (BareArray ix)
  with assms(1) have "index_array g = None" by (simp add: index_array_bare)
  with assms(2) have "g' = g" by (simp add: fillHoles_def)
  then show ?thesis using assms(1) by simp
qed

lemma findBoundaries_tetrahedron: "findBoundaries ps tetrahedron = []"
  by (simp add: findBoundaries_def tetrahedron_def addEdge_def)

theorem fillHoles_append_only_witness:
  "index tetrahedron_mesh = Some (IndexAttribute tetrahedron)
   \<and> fillHoles (\<lambda>vs. 0) tetrahedron_mesh = (tetrahedron_mesh, None)
   \<and> (\<exists>b'. index tetrahedron_mesh = Some b'
         \<and> prefix (index_entries (IndexAttribute tetrahedron)) (index_entries b'))"
proof -
  have i: "index tetrahedron_mesh = Some (IndexAttribute tetrahedron)"
    by (simp add: tetrahedron_mesh_def)
  have f: "fillHoles (\<lambda>vs. 0) tetrahedron_mesh = (tetrahedron_mesh, None)"
    by (simp add: fillHoles_def index_array_attribute[OF i] findBoundaries_tetrahedron)
  from fillHoles_append_only[OF i f] show ?thesis using i f by auto
qed

lemma findBoundaries_one_triangle: "findBoundaries ps one_triangle = [[0, 1], [1, 2], [0, 2]]"
  by (simp add: findBoundaries_def one_triangle_def addEdge_def)

lemma triangulateHole_two: "triangulateHole findEar [u, v] = Inl TypeError"
  by (simp add: triangulateHole_def triangulate_loop.simps)

text \<open>
  C1 states that every operation of the mesh pipeline, \<open>fillHoles\<close> in particular,
  produces a mesh in which every triangle index is smaller than the number of
  vertices. The code does not. On a valid mesh with a boundary edge \<open>fillHoles\<close>
  produces no mesh but throws: every boundary that \<open>findBoundaries\<close> returns has two
  vertices, and \<open>triangulateHole\<close> reads \<open>remaining[2].x\<close>. Given a loop of three
  vertices, \<open>fillHole\<close> appends their x coordinates 5, 7, 9 as the indices of a new
  triangle, on a mesh of 3 vertices.
\<close>

theorem fillHoles_open_mesh_raises:
  "valid_indices triangle_mesh
   \<and> fillHoles findEar triangle_mesh = (triangle_mesh, Some TypeError)
   \<and> fillHole findEar triangle_mesh [0, 1, 2]
       = (triangle_mesh\<lparr> index := Some (IndexAttribute [(0, 1, 2), (5, 7, 9)]) \<rparr>, None)
   \<and> \<not> valid_indices (triangle_mesh\<lparr> index := Some (IndexAttribute [(0, 1, 2), (5, 7, 9)]) \<rparr>)"
proof -
  have a: "fillHoles findEar triangle_mesh = (triangle_mesh, Some TypeError)"
    by (simp add: fillHoles_def index_array_def triangle_mesh_def findBoundaries_one_triangle
        fillHole_def triangulateHole_two)
  have t: "triangulateHole findEar
             [(Num 5, Num 0, Num 0), (Num 7, Num 0, Num 0), (Num 9, Num 1, Num 0)]
      = Inr [(Num 5, Num 7, Num 9)]"
    by (simp add: triangulateHole_def vx_def triangulate_loop.simps)
  have s: "setIndex [(num_of_word 0, num_of_word 1, num_of_word 2), (Num 5, Num 7, Num 9)]
      = [(0, 1, 2), (5, 7, 9)]"
    by (simp add: setIndex_def arrayNeedsUint32_def js_ge65535_def num_of_word_def toUint_def
        js_trunc_def)
  have b: "fillHole findEar triangle_mesh [0, 1, 2]
       = (triangle_mesh\<lparr> index := Some (IndexAttribute [(0, 1, 2), (5, 7, 9)]) \<rparr>, None)"
    by (simp add: fillHole_def index_array_def triangle_mesh_def getXYZ_def t one_triangle_def s)
  have v: "valid_indices triangle_mesh"
    by (simp add: valid_indices_def index_entries_def triangle_mesh_def one_triangle_def)
  have n: "\<not> valid_indices (triangle_mesh\<lparr> index := Some (IndexAttribute [(0, 1, 2), (5, 7, 9)]) \<rparr>)"
    by (simp add: valid_indices_def index_entries_def triangle_mesh_def)
  show ?thesis using a b v n by simp
qed

section \<open>Edge collapse\<close>

lemma collapse_loop_done:
  "int (length edges) \<le> targetCount * 3 \<Longrightarrow> collapse_loop edges targetCount = Inr edges"
  by (subst collapse_loop.simps) simp

lemma length_buildEdgeList: "length (buildEdgeList ps ix) = 3 * length ix"
  by (induction ps ix rule: buildEdgeList.induct) auto

lemma simplifyGeometry_target_reached:
  assumes "index g = Some (IndexAttribute ix)"
    and "int (length ix) \<le> \<lfloor>real (length ix) * (1 - ratio)\<rfloor>"
  shows "simplifyGeometry g ratio
     = Inr \<lparr> position = position g, color = None, index = Some (BareArray []) \<rparr>"
proof -
  have "int (length (buildEdgeList (position g) ix)) \<le> \<lfloor>real (length ix) * (1 - ratio)\<rfloor> * 3"
    using assms(2) by (simp add: length_buildEdgeList)
  then have "collapse_loop (buildEdgeList (position g) ix) \<lfloor>real (length ix) * (1 - ratio)\<rfloor>
      = Inr (buildEdgeList (position g) ix)"
    by (rule collapse_loop_done)
  then show ?thesis
    using assms(1) by (simp add: simplifyGeometry_def index_array_def collapseEdges_def)
qed

lemma smoothGeometry_bare_index:
  assumes "index g = Some (BareArray ix)" and "position g \<noteq> []"
  shows "smoothGeometry g = Inl TypeError"
proof -
  have "[0..<length (position g)] = 0 # [1..<length (position g)]"
    using assms(2) by (simp add: upt_conv_Cons)
  moreover have "smooth_vertex g 0 = Inl TypeError"
    using assms(1) by (simp add: smooth_vertex_def findVertexNeighbors_def index_array_def)
  ultimately show ?thesis by (simp add: smoothGeometry_def)
qed

text \<open>
  C6 states that decimation with a target of at least the current triangle count
  returns the mesh unchanged, without error. The code does not. Take a \<open>mergeVertices\<close>
  that leaves the tetrahedron, which has no duplicate vertex, as it is. \<open>optimizeMesh\<close>
  skips the decimation when the ratio is 0 and the triangles stay; with the ratio -1/2 the
  target for the 4 triangles of the tetrahedron is 6, the loop of \<open>collapseEdges\<close> does
  not run, and \<open>simplifyGeometry\<close> returns the positions with an empty bare array as
  index, since \<open>collapseEdges\<close> never fills \<open>newIndices\<close>; \<open>smoothGeometry\<close> then throws,
  and so does \<open>optimizeMesh\<close>.
\<close>

theorem optimizeMesh_decimation_drops_triangles:
  "index tetrahedron_mesh = Some (IndexAttribute tetrahedron) \<and> length tetrahedron = 4
   \<and> \<lfloor>real (3 * length tetrahedron) / 3 * (1 - (- 1 / 2))\<rfloor> = 6
   \<and> simplifyGeometry tetrahedron_mesh (- 1 / 2)
       = Inr \<lparr> position = position tetrahedron_mesh, color = None,
               index = Some (BareArray []) \<rparr>
   \<and> optimizeMesh (\<lambda>g. g) findEar tetrahedron_mesh (Some (- 1 / 2)) = Inl TypeError
   \<and> (\<exists>g. optimizeMesh (\<lambda>g. g) findEar tetrahedron_mesh (Some 0) = Inr g
           \<and> index g = Some (IndexAttribute tetrahedron))"
proof -
  have i: "index tetrahedron_mesh = Some (IndexAttribute tetrahedron)"
    by (simp add: tetrahedron_mesh_def)
  have l: "length tetrahedron = 4" by (simp add: tetrahedron_def)
  have t: "\<lfloor>real (3 * length tetrahedron) / 3 * (1 - (- 1 / 2))\<rfloor> = 6"
    by (simp add: l)
  have s: "simplifyGeometry tetrahedron_mesh (- 1 / 2)
       = Inr \<lparr> position = position tetrahedron_mesh, color = None,
               index = Some (BareArray []) \<rparr>"
    by (rule simplifyGeometry_target_reached[OF i]) (simp add: l)
  let ?g = "\<lparr> position = position tetrahedron_mesh, color = None,
             index = Some (BareArray []) \<rparr>"
  have f: "fillHoles findEar ?g = (?g, None)"
    by (simp add: fillHoles_def index_array_def)
  have "smoothGeometry ?g = Inl TypeError"
    by (rule smoothGeometry_bare_index[of _ "[]"]) (simp_all add: tetrahedron_mesh_def)
  moreover have "simplifyGeometry tetrahedron_mesh (- (1 / 2)) = Inr ?g"
    using s by simp
  ultimately
  have o: "optimizeMesh (\<lambda>g. g) findEar tetrahedron_mesh (Some (- 1 / 2)) = Inl TypeError"
    by (simp add: optimizeMesh_def f)
  have f0: "fillHoles findEar tetrahedron_mesh = (tetrahedron_mesh, None)"
    by (simp add: fillHoles_def index_array_attribute[OF i] findBoundaries_tetrahedron)
  have "\<exists>g. smoothGeometry tetrahedron_mesh = Inr g \<and> index g = Some (IndexAttribute tetrahedron)"
    by (simp add: smoothGeometry_def tetrahedron_mesh_def tetrahedron_def index_array_def
        smooth_vertex_def findVertexNeighbors_def upt_rec[of 0] upt_rec[of 1] upt_rec[of 2]
        upt_rec[of 3])
  then have k: "\<exists>g. optimizeMesh (\<lambda>g. g) findEar tetrahedron_mesh (Some 0) = Inr g
           \<and> index g = Some (IndexAttribute tetrahedron)"
    by (simp add: optimizeMesh_def f0)
  show ?thesis using i l t s o k by blast
qed

section \<open>Laplacian smoothing\<close>

lemma smooth_loop_nth:
  "smooth_loop g is = Inr vs \<Longrightarrow> k < length is \<Longrightarrow> smooth_vertex g (is ! k) = Inr (vs ! k)"
proof (induction "is" arbitrary: vs k)
  case Nil
  then show ?case by simp
next
  case (Cons i "is")
  then show ?case by (cases k) (auto split: sum.splits)
qed

lemma smooth_vertex_isolated:
  assumes "index g = Some (IndexAttribute ix)" and "neighbors_loop ix i [] = []"
  shows "smooth_vertex g i = Inr (NaN, NaN, NaN)"
  using assms
  by (simp add: smooth_vertex_def findVertexNeighbors_def index_array_def divideScalar_def
      js_recip_length_def multiplyScalar_def)

lemma smoothGeometry_isolated:
  assumes "index g = Some (IndexAttribute ix)" and "i < length (position g)"
    and "neighbors_loop ix i [] = []"
    and "smoothGeometry g = Inr g'"
  shows "position g' ! i = (NaN, NaN, NaN)"
proof -
  from assms(4) obtain vs where vs: "smooth_loop g [0..<length (position g)] = Inr vs"
    and g': "g' = g\<lparr> position := vs \<rparr>"
    by (auto simp: smoothGeometry_def split: sum.splits)
  from smooth_loop_nth[OF vs, of i] assms(2) have "smooth_vertex g i = Inr (vs ! i)" by simp
  with smooth_vertex_isolated[OF assms(1,3)] show ?thesis using g' by simp
qed

text \<open>
  C7 states that smoothing leaves a vertex without neighbours at its original position,
  and is a no-op on a mesh whose vertices all have zero neighbours. The code does not:
  such a vertex gets the zero vector divided by \<open>neighbors.length = 0\<close>, that is
  \<open>NaN\<close> in each coordinate. Vertex 3 of the first mesh moves from (1, 2, 3) to
  \<open>NaN\<close>, and on the mesh whose vertices all have zero neighbours every position
  becomes \<open>NaN\<close>.
\<close>

theorem smoothGeometry_isolated_vertex_nan:
  "smoothGeometry lone_vertex_mesh
     = Inr (lone_vertex_mesh\<lparr> position := [(Num 1, Num 1, Num 0), (Num 0, Num 1, Num 0),
                                             (Num 1, Num 0, Num 0), (NaN, NaN, NaN)] \<rparr>)
   \<and> findVertexNeighbors lone_vertex_mesh 3 = Inr []
   \<and> position lone_vertex_mesh ! 3 = (Num 1, Num 2, Num 3)
   \<and> smoothGeometry unconnected_mesh
     = Inr (unconnected_mesh\<lparr> position := [(NaN, NaN, NaN), (NaN, NaN, NaN)] \<rparr>)"
  by (simp add: smoothGeometry_def lone_vertex_mesh_def unconnected_mesh_def one_triangle_def
      smooth_vertex_def findVertexNeighbors_def index_array_def set_add_def divideScalar_def
      multiplyScalar_def js_recip_length_def vadd_def getXYZ_def upt_rec[of 0] upt_rec[of 1]
      upt_rec[of 2] upt_rec[of 3])

section \<open>Level-of-detail generation\<close>

lemma floor_half_power: "\<lfloor>real n / 2 ^ k\<rfloor> = int (n div 2 ^ k)"
proof -
  have "real n / 2 ^ k = real n / real (2 ^ k)" by simp
  then show ?thesis by (simp only: floor_divide_of_nat_eq)
qed

lemma ladder_exponent_closed: "2 * ladder_exponent i k = (k + 1) * (2 * i + k + 2)"
  by (induction i k rule: ladder_exponent.induct) (auto simp: algebra_simps)

lemma ladder_exponent_0: "ladder_exponent 0 k = (k + 1) * (k + 2) div 2"
  using ladder_exponent_closed[of 0 k] by simp


lemma mult_less_of_less_div:
  fixes m n q :: nat
  assumes "m < n div q"
  shows "m * q < n"
proof -
  have q: "0 < q" using assms by (cases "q = 0") auto
  from assms have "Suc m \<le> n div q" by simp
  then have "Suc m * q \<le> n" using q by (simp only: less_eq_div_iff_mult_less_eq)
  then show ?thesis using q by simp
qed

lemma decimate_loop_map:
  "decimate_loop arr n s i j = map (\<lambda>k. getXYZ arr (j + (k - i) * s)) [i..<n]"
proof (induction arr n s i j rule: decimate_loop.induct)
  case (1 arr n s i j)
  show ?case
  proof (cases "i < n")
    case True
    have "map (\<lambda>k. getXYZ arr (j + s + (k - Suc i) * s)) [Suc i..<n]
        = map (\<lambda>k. getXYZ arr (j + (k - i) * s)) [Suc i..<n]"
    proof (rule map_cong[OF refl])
      fix k assume "k \<in> set [Suc i..<n]"
      then have "k - i = Suc (k - Suc i)" by auto
      then show "getXYZ arr (j + s + (k - Suc i) * s) = getXYZ arr (j + (k - i) * s)"
        by (simp add: add.assoc)
    qed
    with True "1.IH" show ?thesis
      by (subst decimate_loop.simps) (simp add: upt_conv_Cons)
  next
    case False
    then show ?thesis by (subst decimate_loop.simps) simp
  qed
qed

lemma decimate_loop_every:
  "decimate_loop arr (length arr div 2 ^ k) (2 ^ k) 0 0
     = map (\<lambda>m. arr ! (m * 2 ^ k)) [0..<length arr div 2 ^ k]"
proof -
  have "getXYZ arr (m * 2 ^ k) = arr ! (m * 2 ^ k)" if "m < length arr div 2 ^ k" for m
  proof -
    from that have "m * 2 ^ k < length arr"
      by (rule mult_less_of_less_div)
    then show ?thesis by (simp add: getXYZ_def)
  qed
  then show ?thesis by (simp add: decimate_loop_map cong: map_cong)
qed

lemma stride_power: "nat \<lfloor>1 / (1 / 2 ^ k :: real)\<rfloor> = 2 ^ k"
proof -
  have "1 / (1 / 2 ^ k :: real) = real (2 ^ k)" by simp
  then show ?thesis by (simp only: floor_of_nat nat_int)
qed

lemma decimateGeometry_positions:
  assumes "color g = Some cs"
  shows "\<exists>s cs'. decimateGeometry g (1 / 2 ^ k) = Inr s \<and> color s = Some cs'
          \<and> position s = map (\<lambda>m. position g ! (m * 2 ^ k)) [0..<length (position g) div 2 ^ k]"
proof -
  have f: "\<lfloor>real (length (position g)) * (1 / 2 ^ k)\<rfloor> = int (length (position g) div 2 ^ k)"
    using floor_half_power[of "length (position g)" k] by simp
  show ?thesis
    unfolding decimateGeometry_def Let_def f stride_power using assms
    by (simp add: decimate_loop_every)
qed

lemma lod_loop_positions:
  "color cur = Some cs \<Longrightarrow>
   \<exists>ls. lod_loop cur i n acc = (acc @ ls, None) \<and> length ls = n - i
      \<and> (\<forall>k < n - i. position (pgeometry (ls ! k))
            = map (\<lambda>m. position cur ! (m * 2 ^ ladder_exponent i k))
                [0..<length (position cur) div 2 ^ ladder_exponent i k])"
proof (induction cur i n acc arbitrary: cs rule: lod_loop.induct)
  case (1 cur i n acc)
  show ?case
  proof (cases "i < n")
    case False
    then show ?thesis by (subst lod_loop.simps) simp
  next
    case True
    let ?N = "length (position cur)"
    from decimateGeometry_positions[OF "1.prems", of "i + 1"]
    obtain s cs' where d: "decimateGeometry cur (1 / 2 ^ (i + 1)) = Inr s"
      and c: "color s = Some cs'"
      and ps: "position s = map (\<lambda>m. position cur ! (m * 2 ^ (i + 1))) [0..<?N div 2 ^ (i + 1)]"
      by blast
    have l: "length (position s) = ?N div 2 ^ (i + 1)" by (simp add: ps)
    let ?lvl = "\<lparr> pgeometry = s, visible = True \<rparr>"
    from "1.IH"[OF True d c]
    obtain ls where r: "lod_loop s (Suc i) n (acc @ [?lvl]) = ((acc @ [?lvl]) @ ls, None)"
      and len: "length ls = n - Suc i"
      and sz: "\<forall>k < n - Suc i. position (pgeometry (ls ! k))
                   = map (\<lambda>m. position s ! (m * 2 ^ ladder_exponent (Suc i) k))
                       [0..<length (position s) div 2 ^ ladder_exponent (Suc i) k]"
      by blast
    have run: "lod_loop cur i n acc = (acc @ (?lvl # ls), None)"
      using True d r by (subst lod_loop.simps) simp
    have "position (pgeometry ((?lvl # ls) ! k))
            = map (\<lambda>m. position cur ! (m * 2 ^ ladder_exponent i k))
                [0..<?N div 2 ^ ladder_exponent i k]" if "k < n - i" for k
    proof (cases k)
      case 0
      then show ?thesis using ps by simp
    next
      case (Suc k')
      let ?E = "ladder_exponent (Suc i) k'"
      from Suc that have "k' < n - Suc i" by simp
      with sz have p: "position (pgeometry (ls ! k'))
          = map (\<lambda>m. position s ! (m * 2 ^ ?E)) [0..<length (position s) div 2 ^ ?E]"
        by simp
      have e: "length (position s) div 2 ^ ?E = ?N div 2 ^ (i + 1 + ?E)"
        by (simp add: l div_mult2_eq power_add)
      have "position s ! (m * 2 ^ ?E) = position cur ! (m * 2 ^ (i + 1 + ?E))"
        if "m < length (position s) div 2 ^ ?E" for m
      proof -
        from that have "m * 2 ^ ?E < length (position s)"
          by (rule mult_less_of_less_div)
        then have "m * 2 ^ ?E < ?N div 2 ^ (i + 1)" by (simp only: l)
        then have "position s ! (m * 2 ^ ?E) = position cur ! (m * 2 ^ ?E * 2 ^ (i + 1))"
          by (simp add: ps)
        also have "m * 2 ^ ?E * 2 ^ (i + 1) = m * 2 ^ (i + 1 + ?E)"
          by (simp only: power_add mult.assoc mult.commute[of "2 ^ ?E"])
        finally show ?thesis .
      qed
      then have "map (\<lambda>m. position s ! (m * 2 ^ ?E)) [0..<length (position s) div 2 ^ ?E]
          = map (\<lambda>m. position cur ! (m * 2 ^ (i + 1 + ?E))) [0..<length (position s) div 2 ^ ?E]"
        by (simp cong: map_cong)
      with p e Suc show ?thesis by simp
    qed
    moreover have "length (?lvl # ls) = n - i" using len True by simp
    ultimately show ?thesis using run by blast
  qed
qed

lemma generateLODLevels_positions:
  assumes "color (geometry_of p) = Some cs"
  shows "\<exists>p'. generateLODLevels p n = (p', None) \<and> length (levels p') = n
      \<and> (\<forall>i < n. position (pgeometry (levels p' ! i))
            = map (\<lambda>m. position (geometry_of p) ! (m * 2 ^ ((i + 1) * (i + 2) div 2)))
                [0..<length (position (geometry_of p)) div 2 ^ ((i + 1) * (i + 2) div 2)])"
proof -
  from lod_loop_positions[OF assms, of 0 n "[]"]
  obtain ls where r: "lod_loop (geometry_of p) 0 n [] = (ls, None)" and len: "length ls = n"
    and sz: "\<forall>k < n. position (pgeometry (ls ! k))
            = map (\<lambda>m. position (geometry_of p) ! (m * 2 ^ ladder_exponent 0 k))
                [0..<length (position (geometry_of p)) div 2 ^ ladder_exponent 0 k]"
    by auto
  have "generateLODLevels p n = (p\<lparr> levels := ls \<rparr>, None)"
    by (simp add: generateLODLevels_def r)
  then show ?thesis using len sz by (simp add: ladder_exponent_0)
qed

lemma generateLODLevels_sizes:
  assumes "color (geometry_of p) = Some cs"
  shows "\<exists>p'. generateLODLevels p n = (p', None) \<and> length (levels p') = n
      \<and> (\<forall>i < n. length (position (pgeometry (levels p' ! i)))
                   = length (position (geometry_of p)) div 2 ^ ((i + 1) * (i + 2) div 2))"
proof -
  from generateLODLevels_positions[OF assms, of n]
  obtain p' where r: "generateLODLevels p n = (p', None)" and len: "length (levels p') = n"
    and ps: "\<forall>i < n. position (pgeometry (levels p' ! i))
            = map (\<lambda>m. position (geometry_of p) ! (m * 2 ^ ((i + 1) * (i + 2) div 2)))
                [0..<length (position (geometry_of p)) div 2 ^ ((i + 1) * (i + 2) div 2)]"
    by blast
  have "length (position (pgeometry (levels p' ! i)))
      = length (position (geometry_of p)) div 2 ^ ((i + 1) * (i + 2) div 2)" if "i < n" for i
    using ps that by simp
  with r len show ?thesis by blast
qed

lemma triangular_mono:
  fixes i j :: nat
  shows "i \<le> j \<Longrightarrow> (i + 1) * (i + 2) div 2 \<le> (j + 1) * (j + 2) div 2"
  by (intro div_le_mono mult_le_mono) simp_all

lemma decimateGeometry_floor:
  assumes "color g = Some cs" and "0 \<le> ratio"
  shows "\<exists>s. decimateGeometry g ratio = Inr s
          \<and> int (length (position s)) = \<lfloor>real (length (position g)) * ratio\<rfloor>"
proof -
  have "0 \<le> \<lfloor>real (length (position g)) * ratio\<rfloor>" using assms(2) by simp
  then show ?thesis
    using assms(1) by (simp add: decimateGeometry_def Let_def decimate_loop_map)
qed

text \<open>
  C2, amended: on a cloud with a colour attribute, \<open>generateLODLevels\<close> with \<open>n \<ge> 1\<close>
  returns \<open>n\<close> levels without error, level 0 with at most as many points as the input
  and every later level with at most as many as the level before it. No minimum of
  one point is retained: a decimation by a ratio keeps \<open>floor (count * ratio)\<close> points,
  none when \<open>count * ratio < 1\<close>, and for a cloud of at most one point every level
  after level 0 is empty.
\<close>

theorem generateLODLevels_no_minimum:
  assumes "color (geometry_of p) = Some cs" and "1 \<le> n"
  shows "\<exists>p'. generateLODLevels p n = (p', None) \<and> length (levels p') = n
      \<and> length (position (pgeometry (levels p' ! 0))) \<le> length (position (geometry_of p))
      \<and> (\<forall>i. Suc i < n \<longrightarrow> length (position (pgeometry (levels p' ! Suc i)))
                               \<le> length (position (pgeometry (levels p' ! i))))
      \<and> (length (position (geometry_of p)) \<le> 1 \<longrightarrow>
            (\<forall>i. 0 < i \<and> i < n \<longrightarrow> position (pgeometry (levels p' ! i)) = []))
      \<and> (\<forall>ratio \<ge> 0. \<exists>s. decimateGeometry (geometry_of p) ratio = Inr s
            \<and> int (length (position s)) = \<lfloor>real (length (position (geometry_of p))) * ratio\<rfloor>)"
proof -
  let ?N = "length (position (geometry_of p))"
  let ?T = "\<lambda>i::nat. (i + 1) * (i + 2) div 2"
  from generateLODLevels_sizes[OF assms(1), of n]
  obtain p' where r: "generateLODLevels p n = (p', None)" and len: "length (levels p') = n"
    and sz: "\<forall>i < n. length (position (pgeometry (levels p' ! i))) = ?N div 2 ^ ?T i"
    by blast
  have first: "length (position (pgeometry (levels p' ! 0))) \<le> ?N"
    using sz assms(2) by (simp add: div_le_dividend)
  have mono: "length (position (pgeometry (levels p' ! Suc i)))
      \<le> length (position (pgeometry (levels p' ! i)))" if "Suc i < n" for i
  proof -
    have "?T i \<le> ?T (Suc i)" by (rule triangular_mono) simp
    then have "(2::nat) ^ ?T i \<le> 2 ^ ?T (Suc i)" by (rule power_increasing) simp
    then have "?N div 2 ^ ?T (Suc i) \<le> ?N div 2 ^ ?T i" by (intro div_le_mono2) simp_all
    with sz that show ?thesis by simp
  qed
  have small: "position (pgeometry (levels p' ! i)) = []" if "?N \<le> 1" "i < n" for i
  proof -
    have "1 \<le> ?T i" by simp
    then have "(2::nat) ^ 1 \<le> 2 ^ ?T i" by (rule power_increasing) simp
    then have "(2::nat) \<le> 2 ^ ?T i" by (simp only: power_one_right)
    with that(1) have "?N < 2 ^ ?T i" by linarith
    then have "?N div 2 ^ ?T i = 0" by (rule div_less)
    moreover from sz that(2)
    have "length (position (pgeometry (levels p' ! i))) = ?N div 2 ^ ?T i" by blast
    ultimately have "length (position (pgeometry (levels p' ! i))) = 0" by (simp only:)
    then show ?thesis by (simp only: length_0_conv)
  qed
  have dec: "\<exists>s. decimateGeometry (geometry_of p) ratio = Inr s
            \<and> int (length (position s)) = \<lfloor>real ?N * ratio\<rfloor>" if "0 \<le> ratio" for ratio
    using decimateGeometry_floor[OF assms(1) that] .
  show ?thesis using r len first mono small dec by blast
qed

lemma generateLODLevels_eight:
  "generateLODLevels (cloud_of eight_points) 2
     = ((cloud_of eight_points)\<lparr> levels :=
          [level_of \<lparr> position = [pt 0, pt 2, pt 4, pt 6], color = Some [pt 0, pt 2, pt 4, pt 6], index = None \<rparr>,
           level_of \<lparr> position = [pt 0], color = Some [pt 0], index = None \<rparr>] \<rparr>, None)"
  by (simp add: generateLODLevels_def cloud_of_def eight_points_def lod_loop.simps
      decimateGeometry_def decimate_loop.simps getXYZ_def level_of_def)

text \<open>
  C2, as stated, fails: a single-point cloud run with 4 levels gives 4 levels that each
  hold no point.
\<close>

theorem generateLODLevels_single_point_counterexample:
  "level_sizes (fst (generateLODLevels (cloud_of [pt 1]) 4)) = [0, 0, 0, 0]"
  by (simp add: generateLODLevels_def cloud_of_def lod_loop.simps
      decimateGeometry_def decimate_loop.simps getXYZ_def level_sizes_def)

theorem generateLODLevels_no_minimum_witness:
  "color (geometry_of (cloud_of [pt 1])) = Some [pt 1] \<and> (1::nat) \<le> 4
   \<and> length (position (geometry_of (cloud_of [pt 1]))) = 1
   \<and> snd (generateLODLevels (cloud_of [pt 1]) 4) = None
   \<and> length (levels (fst (generateLODLevels (cloud_of [pt 1]) 4))) = 4
   \<and> position (pgeometry (levels (fst (generateLODLevels (cloud_of [pt 1]) 4)) ! 3)) = []"
proof -
  have c: "color (geometry_of (cloud_of [pt 1])) = Some [pt 1]" by (simp add: cloud_of_def)
  have N: "length (position (geometry_of (cloud_of [pt 1]))) = 1" by (simp add: cloud_of_def)
  from generateLODLevels_no_minimum[OF c, of 4]
  obtain p' where r: "generateLODLevels (cloud_of [pt 1]) 4 = (p', None)"
    and len: "length (levels p') = 4"
    and small: "length (position (geometry_of (cloud_of [pt 1]))) \<le> 1 \<longrightarrow>
            (\<forall>i. 0 < i \<and> i < 4 \<longrightarrow> position (pgeometry (levels p' ! i)) = [])"
    by auto
  from small N have "position (pgeometry (levels p' ! 3)) = []" by simp
  with r len c N show ?thesis by simp
qed

text \<open>
  C4 states that level 0 is the unmodified input cloud and level \<open>i \<ge> 1\<close> every
  \<open>2 ^ i\<close>-th point of it. The code does not. On a cloud of the eight points 0 .. 7 and
  two levels, level 0 is not the input cloud but its points 0, 2, 4, 6 (ratio 1/2), and
  level 1 is the single point 0 (every fourth point of level 0), not every second
  point of the input.
\<close>

theorem generateLODLevels_level0_decimated:
  "generateLODLevels (cloud_of eight_points) 2
     = ((cloud_of eight_points)\<lparr> levels :=
          [level_of \<lparr> position = [pt 0, pt 2, pt 4, pt 6], color = Some [pt 0, pt 2, pt 4, pt 6], index = None \<rparr>,
           level_of \<lparr> position = [pt 0], color = Some [pt 0], index = None \<rparr>] \<rparr>, None)
   \<and> position (geometry_of (cloud_of eight_points)) = [pt 0, pt 1, pt 2, pt 3, pt 4, pt 5, pt 6, pt 7]"
  by (simp add: generateLODLevels_eight) (simp add: cloud_of_def eight_points_def)

section \<open>Frame sampling\<close>

lemma skip_non_multiples:
  assumes "0 < d" and "d dvd x0"
  shows "filter (\<lambda>k. d dvd k) [Suc x0..<n] = filter (\<lambda>k. d dvd k) [x0 + d..<n]"
proof -
  have none: "\<not> d dvd k" if "x0 < k" "k < x0 + d" for k
  proof
    assume "d dvd k"
    with assms(2) have "d dvd (k - x0)" by (simp add: dvd_diff_nat)
    moreover have "0 < k - x0" "k - x0 < d" using that by auto
    ultimately show False by (meson dvd_imp_le not_less)
  qed
  show ?thesis
  proof (cases "x0 + d \<le> n")
    case True
    have "Suc x0 \<le> x0 + d" using assms(1) by simp
    then have "[Suc x0..<(x0 + d) + (n - (x0 + d))] = [Suc x0..<x0 + d] @ [x0 + d..<(x0 + d) + (n - (x0 + d))]"
      by (rule upt_add_eq_append)
    with True have "[Suc x0..<n] = [Suc x0..<x0 + d] @ [x0 + d..<n]" by simp
    moreover have "filter (\<lambda>k. d dvd k) [Suc x0..<x0 + d] = []"
      using none by (auto simp: filter_empty_conv)
    ultimately show ?thesis by simp
  next
    case False
    then have "filter (\<lambda>k. d dvd k) [Suc x0..<n] = []"
      using none by (auto simp: filter_empty_conv)
    with False show ?thesis by simp
  qed
qed

lemma sample_cols_visits:
  "0 < d \<Longrightarrow> d dvd x0 \<Longrightarrow>
   sample_cols f z d y x0
     = concat (map (pixel_sample f z y) (filter (\<lambda>k. d dvd k) [x0..<width f]))"
proof (induction f z d y x0 rule: sample_cols.induct)
  case (1 f z d y x)
  show ?case
  proof (cases "x < width f")
    case True
    have "d dvd (x + d)" using "1.prems" by simp
    with "1.IH" True "1.prems"
    have ih: "sample_cols f z d y (x + d)
        = concat (map (pixel_sample f z y) (filter (\<lambda>k. d dvd k) [x + d..<width f]))"
      by simp
    have "filter (\<lambda>k. d dvd k) [x..<width f] = x # filter (\<lambda>k. d dvd k) [x + d..<width f]"
      using True "1.prems" by (simp add: upt_conv_Cons skip_non_multiples)
    then show ?thesis
      using True "1.prems" ih by (subst sample_cols.simps) simp
  next
    case False
    then show ?thesis by (subst sample_cols.simps) simp
  qed
qed

lemma sample_rows_visits:
  "0 < d \<Longrightarrow> d dvd y0 \<Longrightarrow>
   sample_rows f z d y0
     = concat (map (\<lambda>y. sample_cols f z d y 0) (filter (\<lambda>k. d dvd k) [y0..<height f]))"
proof (induction f z d y0 rule: sample_rows.induct)
  case (1 f z d y)
  show ?case
  proof (cases "y < height f")
    case True
    have "d dvd (y + d)" using "1.prems" by simp
    with "1.IH" True "1.prems"
    have ih: "sample_rows f z d (y + d)
        = concat (map (\<lambda>y. sample_cols f z d y 0) (filter (\<lambda>k. d dvd k) [y + d..<height f]))"
      by simp
    have "filter (\<lambda>k. d dvd k) [y..<height f] = y # filter (\<lambda>k. d dvd k) [y + d..<height f]"
      using True "1.prems" by (simp add: upt_conv_Cons skip_non_multiples)
    then show ?thesis
      using True "1.prems" ih by (subst sample_rows.simps) simp
  next
    case False
    then show ?thesis by (subst sample_rows.simps) simp
  qed
qed

lemma byte_alpha_not_half: "real n / 255 \<noteq> 1 / 2"
proof
  assume "real n / 255 = 1 / 2"
  then have "2 * real n = 255" by simp
  then have "real (2 * n) = real 255" by simp
  then have "2 * n = 255" by (simp only: of_nat_eq_iff)
  then show False by presburger
qed

lemma pixel_in_frame:
  assumes "well_formed f" and "y < height f" and "x < width f"
  shows "(y * width f + x) * 4 + 3 < length (data f)"
proof -
  have "y * width f + x < Suc y * width f" using assms(3) by simp
  also have "\<dots> \<le> height f * width f" using assms(2) by (simp add: Suc_leI mult_le_mono1 del: mult_Suc)
  finally have "(y * width f + x) * 4 + 4 \<le> height f * width f * 4" by simp
  then show ?thesis using assms(1) by (simp add: well_formed_def mult.commute)
qed

lemma pixel_sample_rule:
  assumes "well_formed f" and "y < height f" and "x < width f"
  shows "pixel_sample f z y x
     = (if \<not> channel f y x 3 < 1 / 2 then [point_of f z (y, x)] else [])"
proof -
  let ?i = "(y * width f + x) * 4"
  from pixel_in_frame[OF assms] have r: "?i + 3 < length (data f)" .
  then have b: "byte_at (data f) ?i = Some (real (unat (data f ! ?i)))"
    "byte_at (data f) (?i + 1) = Some (real (unat (data f ! (?i + 1))))"
    "byte_at (data f) (?i + 2) = Some (real (unat (data f ! (?i + 2))))"
    "byte_at (data f) (?i + 3) = Some (real (unat (data f ! (?i + 3))))"
    by (simp_all add: byte_at_def)
  have ne: "real (unat (data f ! (?i + 3))) / 255 \<noteq> 1 / 2" by (rule byte_alpha_not_half)
  show ?thesis
    unfolding pixel_sample_def Let_def b using ne
    by (auto simp: channel_def point_of_def)
qed


lemma visited_bound: "k \<in> set (visited n d) \<Longrightarrow> k < n"
  by (simp add: visited_def)

lemma row_samples:
  assumes "well_formed f" and "y < height f" and "\<forall>x \<in> set xs. x < width f"
  shows "concat (map (pixel_sample f z y) xs)
     = map (point_of f z) (filter (\<lambda>(y, x). \<not> channel f y x 3 < 1 / 2) (map (\<lambda>x. (y, x)) xs))"
  using assms(3)
proof (induction xs)
  case Nil
  then show ?case by simp
next
  case (Cons x xs)
  then have "x < width f" by simp
  from pixel_sample_rule[OF assms(1,2) this, of z] Cons show ?case by simp
qed

lemma frame_samples:
  assumes "well_formed f" and "0 < d"
  shows "sample_rows f z d 0 = retained_points f z d (1 / 2)"
proof -
  let ?keep = "\<lambda>(y, x). \<not> channel f y x 3 < 1 / 2"
  have row: "sample_cols f z d y 0
      = map (point_of f z) (filter ?keep (map (\<lambda>x. (y, x)) (visited (width f) d)))"
    if "y \<in> set (visited (height f) d)" for y
  proof -
    have "sample_cols f z d y 0 = concat (map (pixel_sample f z y) (visited (width f) d))"
      using sample_cols_visits[of d 0 f z y] assms(2) by (simp add: visited_def)
    also have "\<dots> = map (point_of f z) (filter ?keep (map (\<lambda>x. (y, x)) (visited (width f) d)))"
      by (rule row_samples[OF assms(1)]) (use that in \<open>auto dest: visited_bound\<close>)
    finally show ?thesis .
  qed
  have "sample_rows f z d 0 = concat (map (\<lambda>y. sample_cols f z d y 0) (visited (height f) d))"
    using sample_rows_visits[of d 0 f z] assms(2) by (simp add: visited_def)
  also have "\<dots> = concat (map (\<lambda>y. map (point_of f z)
        (filter ?keep (map (\<lambda>x. (y, x)) (visited (width f) d)))) (visited (height f) d))"
    using row by (simp cong: map_cong)
  also have "\<dots> = retained_points f z d (1 / 2)"
    by (simp add: retained_points_def retained_def sampled_pixels_def filter_concat map_concat
        comp_def)
  finally show ?thesis .
qed

lemma density_positive: "0 < density_of pref"
  by (simp add: density_of_def split: option.splits)

lemma scene_frames_samples:
  "\<forall>f \<in> set frames. well_formed f \<Longrightarrow> 0 < d \<Longrightarrow>
   scene_frames frames motionVectors d k
     = concat (map (\<lambda>(j, f). retained_points f (depth_of motionVectors j) d (1 / 2))
         (zip [k..<k + length frames] frames))"
proof (induction frames arbitrary: k)
  case Nil
  then show ?case by simp
next
  case (Cons f frames)
  have "[k..<k + length (f # frames)] = k # [Suc k..<k + length (f # frames)]"
    by (rule upt_conv_Cons) simp
  then have "[k..<k + length (f # frames)] = k # [Suc k..<Suc k + length frames]"
    by simp
  moreover have "scene_frames frames motionVectors d (Suc k)
     = concat (map (\<lambda>(j, f). retained_points f (depth_of motionVectors j) d (1 / 2))
         (zip [Suc k..<Suc k + length frames] frames))"
    using Cons by simp
  moreover have "sample_rows f (depth_of motionVectors k) d 0
      = retained_points f (depth_of motionVectors k) d (1 / 2)"
    using Cons.prems by (simp add: frame_samples)
  ultimately show ?case by (simp add: Let_def depth_of_def)
qed

text \<open>
  C3, amended: the threshold is the constant 0.5. For every well-formed frame and every
  density, \<open>generatePointCloud\<close> and \<open>reconstruct3DScene\<close> retain, in row-major order,
  exactly the sampled pixels whose normalised alpha is not \<open>< 0.5\<close> (the code tests
  \<open>a > 0.5\<close>; a byte over 255 is never 0.5). On the 2 x 2 frame with one pixel of alpha
  0.2 this gives exactly 3 points.
\<close>

theorem sampling_fixed_alpha_threshold:
  assumes "well_formed imageData" and "\<forall>f \<in> set frames. well_formed f"
  shows "generatePointCloud imageData pref
           = of_samples (retained_points imageData 1 (density_of pref) (1 / 2))
       \<and> reconstruct3DScene frames motionVectors pref
           = of_samples (concat (map (\<lambda>(j, f).
                 retained_points f (depth_of motionVectors j) (density_of pref) (1 / 2))
               (zip [0..<length frames] frames)))"
  using assms frame_samples[OF assms(1) density_positive, of 1 pref]
    scene_frames_samples[OF assms(2) density_positive, where pref1 = pref
      and motionVectors = motionVectors and k = 0]
  by (simp add: generatePointCloud_def reconstruct3DScene_def of_samples_def Let_def)

lemma well_formed_2x2: "well_formed frame_2x2"
  by (simp add: well_formed_def frame_2x2_def)

lemma visited_2_1: "visited 2 (Suc 0) = [0, 1]"
  by (simp add: visited_def numeral_2_eq_2)

lemma retained_2x2: "retained frame_2x2 (Suc 0) (1 / 2) = [(0, 0), (1, 0), (1, 1)]"
  by (simp add: retained_def sampled_pixels_def frame_2x2_def visited_2_1 channel_def)

theorem sampling_fixed_alpha_threshold_witness:
  "well_formed frame_2x2 \<and> list_all well_formed [frame_2x2]
   \<and> channel frame_2x2 0 1 3 = 1 / 5
   \<and> length (position (generatePointCloud frame_2x2 None)) = 3
   \<and> length (position (reconstruct3DScene [frame_2x2] [] None)) = 3"
proof -
  have d: "density_of None = 1" by (simp add: density_of_def)
  have w: "\<forall>f \<in> set [frame_2x2]. well_formed f" by (simp add: well_formed_2x2)
  from sampling_fixed_alpha_threshold[OF well_formed_2x2 w, of None "[]"]
  have "length (position (generatePointCloud frame_2x2 None)) = 3"
    and "length (position (reconstruct3DScene [frame_2x2] [] None)) = 3"
    by (simp_all add: d of_samples_def retained_points_def retained_2x2)
  moreover have "channel frame_2x2 0 1 3 = 1 / 5"
    by (simp add: channel_def frame_2x2_def)
  ultimately show ?thesis by (simp add: well_formed_2x2)
qed

text \<open>
  C3, as stated for every threshold, fails: at threshold 0.2 a pixel of alpha 0.2 would
  be retained, and the code, which has no threshold parameter, drops it.
\<close>

theorem sampling_threshold_counterexample:
  "well_formed frame_1x1 \<and> channel frame_1x1 0 0 3 = 1 / 5
   \<and> retained frame_1x1 1 (1 / 5) = [(0, 0)]
   \<and> position (generatePointCloud frame_1x1 None) = []"
proof -
  have v: "visited (Suc 0) (Suc 0) = [0]" by (simp add: visited_def)
  have w: "well_formed frame_1x1" by (simp add: well_formed_def frame_1x1_def)
  have c: "channel frame_1x1 0 0 3 = 1 / 5" by (simp add: channel_def frame_1x1_def)
  have r: "retained frame_1x1 1 (1 / 5) = [(0, 0)]"
    by (simp add: retained_def sampled_pixels_def frame_1x1_def v channel_def)
  have "position (generatePointCloud frame_1x1 None) = []"
    by (simp add: generatePointCloud_def density_of_def sample_rows.simps sample_cols.simps
        pixel_sample_def byte_at_def frame_1x1_def)
  with w c r show ?thesis by simp
qed

section \<open>Motion estimation\<close>

lemma flow_pixel_rule:
  assumes "equal_sized frame1 frame2" and "y < height frame1" and "x < width frame1"
  shows "flow_pixel frame1 frame2 y x acc
     = (if red_changed frame1 frame2 y x
        then (fst acc + (real x - real (width frame1) / 2),
              snd acc + (real y - real (height frame1) / 2))
        else acc)"
proof -
  let ?i = "(y * width frame1 + x) * 4"
  have "?i + 3 < length (data frame1)"
    using assms by (intro pixel_in_frame) (simp_all add: equal_sized_def)
  moreover have "(y * width frame2 + x) * 4 + 3 < length (data frame2)"
    using assms by (intro pixel_in_frame) (simp_all add: equal_sized_def)
  then have "?i + 3 < length (data frame2)" using assms(1) by (simp add: equal_sized_def)
  ultimately have "byte_at (data frame1) ?i = Some (real (unat (data frame1 ! ?i)))"
    and "byte_at (data frame2) ?i = Some (real (unat (data frame2 ! ?i)))"
    by (simp_all add: byte_at_def)
  then show ?thesis by (simp add: flow_pixel_def red_changed_def Let_def)
qed

lemma flow_row:
  assumes "equal_sized frame1 frame2" and "y < height frame1" and "\<forall>x \<in> set xs. x < width frame1"
  shows "fold (\<lambda>x acc'. flow_pixel frame1 frame2 y x acc') xs acc
     = (fst acc + sum_list (map (\<lambda>x. real x - real (width frame1) / 2)
                     (filter (red_changed frame1 frame2 y) xs)),
        snd acc + sum_list (map (\<lambda>x. real y - real (height frame1) / 2)
                     (filter (red_changed frame1 frame2 y) xs)))"
  using assms(3)
proof (induction xs arbitrary: acc)
  case Nil
  then show ?case by simp
next
  case (Cons x xs)
  then have x: "x < width frame1" by simp
  show ?case
    using Cons by (simp add: flow_pixel_rule[OF assms(1,2) x] algebra_simps)
qed

lemma flow_rows:
  assumes "equal_sized frame1 frame2" and "\<forall>y \<in> set ys. y < height frame1"
  shows "fold (\<lambda>y acc. fold (\<lambda>x acc'. flow_pixel frame1 frame2 y x acc') [0..<width frame1] acc) ys acc
     = (fst acc + sum_list (map (\<lambda>(y, x). real x - real (width frame1) / 2)
          (concat (map (\<lambda>y. map (\<lambda>x. (y, x)) (filter (red_changed frame1 frame2 y) [0..<width frame1])) ys))),
        snd acc + sum_list (map (\<lambda>(y, x). real y - real (height frame1) / 2)
          (concat (map (\<lambda>y. map (\<lambda>x. (y, x)) (filter (red_changed frame1 frame2 y) [0..<width frame1])) ys))))"
  using assms(2)
proof (induction ys arbitrary: acc)
  case Nil
  then show ?case by simp
next
  case (Cons y ys)
  then have y: "y < height frame1" by simp
  have row: "fold (\<lambda>x acc'. flow_pixel frame1 frame2 y x acc') [0..<width frame1] acc
     = (fst acc + sum_list (map (\<lambda>x. real x - real (width frame1) / 2)
                     (filter (red_changed frame1 frame2 y) [0..<width frame1])),
        snd acc + sum_list (map (\<lambda>x. real y - real (height frame1) / 2)
                     (filter (red_changed frame1 frame2 y) [0..<width frame1])))"
    by (rule flow_row[OF assms(1) y]) simp
  show ?case
    using Cons by (simp add: row comp_def algebra_simps)
qed

lemma flow_sums_accumulated:
  assumes "equal_sized frame1 frame2"
  shows "flow_sums frame1 frame2 = accumulated_offset frame1 frame2"
  using flow_rows[OF assms, of "[0..<height frame1]" "(0, 0)"]
  by (simp add: flow_sums_def accumulated_offset_def changed_pixels_def)

lemma normalize_zero: "normalize (0, 0, 0) = (0, 0, 0)"
  by (simp add: normalize_def vlength_def)

lemma scaled_squares:
  fixes s x y z :: real
  assumes "s \<noteq> 0" and "s * s = x * x + y * y + z * z"
  shows "x * (1 / s) * (x * (1 / s)) + y * (1 / s) * (y * (1 / s)) + z * (1 / s) * (z * (1 / s)) = 1"
proof -
  have "x * (1 / s) * (x * (1 / s)) + y * (1 / s) * (y * (1 / s)) + z * (1 / s) * (z * (1 / s))
      = (x * x + y * y + z * z) / (s * s)"
    using assms(1) by (simp add: field_simps)
  also have "\<dots> = (s * s) / (s * s)" by (simp only: assms(2))
  also have "\<dots> = 1" using assms(1) by simp
  finally show ?thesis .
qed

lemma normalize_unit:
  assumes "vlength v \<noteq> 0"
  shows "vlength (normalize v) = 1"
proof -
  obtain x y z where v: "v = (x, y, z)" by (cases v)
  define s where "s = sqrt (x * x + y * y + z * z)"
  have s: "s \<noteq> 0" using assms by (simp add: v vlength_def s_def)
  have "0 \<le> x * x + y * y + z * z" by simp
  then have ss: "s * s = x * x + y * y + z * z" unfolding s_def by simp
  have n: "normalize v = (x * (1 / s), y * (1 / s), z * (1 / s))"
    using s by (simp add: v normalize_def vlength_def s_def[symmetric] Let_def)
  show ?thesis
    unfolding n vlength_def prod.case scaled_squares[OF s ss] by simp
qed

text \<open>
  C8: for two well-formed frames of equal size, \<open>calculateOpticalFlow\<close> returns the
  normalisation of the accumulated offset of the changed pixels with z = 0: its z
  component is 0, it is the zero vector when no pixel has changed, and it has length 1
  whenever the accumulated offset is not zero.
\<close>

theorem calculateOpticalFlow_normalized_offset:
  assumes "equal_sized frame1 frame2"
  shows "calculateOpticalFlow frame1 frame2
           = normalize (fst (accumulated_offset frame1 frame2), snd (accumulated_offset frame1 frame2), 0)
       \<and> snd (snd (calculateOpticalFlow frame1 frame2)) = 0
       \<and> (changed_pixels frame1 frame2 = [] \<longrightarrow> calculateOpticalFlow frame1 frame2 = (0, 0, 0))
       \<and> (accumulated_offset frame1 frame2 \<noteq> (0, 0) \<longrightarrow> vlength (calculateOpticalFlow frame1 frame2) = 1)"
proof -
  obtain dx dy where a: "accumulated_offset frame1 frame2 = (dx, dy)"
    by (cases "accumulated_offset frame1 frame2")
  have c: "calculateOpticalFlow frame1 frame2 = normalize (dx, dy, 0)"
    by (simp add: calculateOpticalFlow_def flow_sums_accumulated[OF assms] a)
  have z: "snd (snd (normalize (dx, dy, 0))) = 0" by (simp add: normalize_def Let_def)
  have e: "changed_pixels frame1 frame2 = [] \<Longrightarrow> (dx, dy) = (0, 0)"
    using a by (simp add: accumulated_offset_def)
  have u: "(dx, dy) \<noteq> (0, 0) \<Longrightarrow> vlength (normalize (dx, dy, 0)) = 1"
  proof (rule normalize_unit)
    assume "(dx, dy) \<noteq> (0, 0)"
    then have "dx * dx + dy * dy \<noteq> 0" by auto
    then show "vlength (dx, dy, 0) \<noteq> 0" by (simp add: vlength_def)
  qed
  show ?thesis using c z e u a by (auto simp: normalize_zero)
qed


lemma equal_sized_frames: "equal_sized frame_dark frame_moved" "equal_sized frame_dark frame_dark"
  by (simp_all add: equal_sized_def well_formed_def frame_dark_def frame_moved_def)

lemma upt_4: "[0..<4] = [0, 1, 2, 3]"
  by (simp add: eval_nat_numeral)

lemma upt_2: "[0..<2] = [0, 1]"
  by (simp add: eval_nat_numeral)

lemma changed_moved:
  "changed_pixels frame_dark frame_moved = [(0, 0), (0, 1), (0, 2), (0, 3), (1, 1)]"
  by (simp add: changed_pixels_def red_changed_def frame_dark_def frame_moved_def upt_4 upt_2)

lemma changed_still: "changed_pixels frame_dark frame_dark = []"
  by (simp add: changed_pixels_def red_changed_def frame_dark_def upt_4 upt_2)

lemma normalize_3_4: "normalize (- 3, - 4, 0) = (- 3 / 5, - 4 / 5, 0)"
proof -
  have "sqrt 25 = 5" by (rule real_sqrt_unique) auto
  then show ?thesis by (simp add: normalize_def vlength_def)
qed

theorem calculateOpticalFlow_normalized_offset_witness:
  "equal_sized frame_dark frame_moved
   \<and> accumulated_offset frame_dark frame_moved = (- 3, - 4)
   \<and> calculateOpticalFlow frame_dark frame_moved = (- 3 / 5, - 4 / 5, 0)
   \<and> equal_sized frame_dark frame_dark
   \<and> changed_pixels frame_dark frame_dark = []
   \<and> calculateOpticalFlow frame_dark frame_dark = (0, 0, 0)"
proof -
  have a: "accumulated_offset frame_dark frame_moved = (- 3, - 4)"
    by (simp add: accumulated_offset_def changed_moved) (simp add: frame_dark_def)
  from calculateOpticalFlow_normalized_offset[OF equal_sized_frames(1)]
  have m: "calculateOpticalFlow frame_dark frame_moved = (- 3 / 5, - 4 / 5, 0)"
    by (simp add: a normalize_3_4)
  from calculateOpticalFlow_normalized_offset[OF equal_sized_frames(2)]
  have z: "calculateOpticalFlow frame_dark frame_dark = (0, 0, 0)"
    using changed_still by blast
  show ?thesis using a m z equal_sized_frames changed_still by simp
qed

end
